theory Spec2Isabelle
  imports Complex_Main "HOL-Library.Log_Nat"
begin

section \<open>Functional Tetris: the state-transition engine\<close>

text \<open>
  A shallow embedding of the game engine: the constants, tables and types of
  \<^verbatim>\<open>constants.ts\<close> / \<^verbatim>\<open>type.ts\<close>, the helpers of \<^verbatim>\<open>util.ts\<close> and the
  Action classes of \<^verbatim>\<open>state.ts\<close>.

  Numbers. A JavaScript number is an IEEE double. Coordinates, counters and scores of
  this program are integers far below \<open>2^53\<close>, where double arithmetic is exact, so they
  are \<open>int\<close> (or \<open>nat\<close> for the id counter and the rotation index, which only count
  upwards from 0). The one place where a double rounds is the product inside
  \<^verbatim>\<open>RNG.hash\<close>; it is written out below.

  Failure. Reading a property of \<^verbatim>\<open>undefined\<close> throws a TypeError; every transition
  returns \<open>error + State\<close>, \<open>Inl TypeError\<close> standing for the throw. An array read out of
  range yields \<^verbatim>\<open>undefined\<close> without throwing, which is \<open>None\<close> of \<open>idx\<close>.

  Names. The source's names are kept, except where a name would capture a variable
  or clash: the Cell fields \<^verbatim>\<open>x y width height id color\<close> carry the prefix \<open>cell_\<close>,
  the Tetro field \<^verbatim>\<open>seed\<close> is \<open>tetro_seed\<close> (State has a \<^verbatim>\<open>seed\<close> too), the shape letters
  are \<open>Shape_I\<close> ... \<open>Shape_Z\<close>, the directions \<^verbatim>\<open>"x"\<close> and \<^verbatim>\<open>"y"\<close> are \<open>Dir_x\<close> and \<open>Dir_y\<close>,
  and a static member \<^verbatim>\<open>C.f\<close> is \<open>C_f\<close>.
\<close>

subsection \<open>Constants\<close>

definition CANVAS_WIDTH :: int where "CANVAS_WIDTH = 200"
definition CANVAS_HEIGHT :: int where "CANVAS_HEIGHT = 400"
definition PREVIEW_WIDTH :: int where "PREVIEW_WIDTH = 160"
definition PREVIEW_HEIGHT :: int where "PREVIEW_HEIGHT = 80"
definition GRID_WIDTH :: int where "GRID_WIDTH = 10"
definition GRID_HEIGHT :: int where "GRID_HEIGHT = 20"

text \<open>\<^verbatim>\<open>Block.WIDTH = CANVAS_WIDTH / GRID_WIDTH\<close>: both quotients are exact.\<close>

definition Block_WIDTH :: int where "Block_WIDTH = CANVAS_WIDTH div GRID_WIDTH"
definition Block_HEIGHT :: int where "Block_HEIGHT = CANVAS_HEIGHT div GRID_HEIGHT"

subsection \<open>Types\<close>

datatype error = TypeError

datatype ShapeLetters = Shape_I | Shape_T | Shape_J | Shape_L | Shape_O | Shape_S | Shape_Z

datatype Direction = Dir_x | Dir_y

record Cell =
  cell_x :: int
  cell_y :: int
  cell_width :: int
  cell_height :: int
  cell_id :: string
  cell_color :: string

text \<open>
  \<^verbatim>\<open>originBlock\<close> is typed \<^verbatim>\<open>Cell\<close>, but every assignment to it reads an array element
  (\<^verbatim>\<open>updatedCells[1]\<close>, the first element of a filter result), which is \<^verbatim>\<open>undefined\<close>
  when the element is absent: the field is an option.
\<close>

record Tetro =
  cells :: "Cell list"
  originBlock :: "Cell option"
  collided :: bool
  rotation :: nat
  shape :: ShapeLetters
  tetro_seed :: int
  blockStartCount :: nat

record State =
  currentBlock :: "Tetro option"
  blocks :: "Cell list"
  nextBlock :: "Tetro option"
  heldBlock :: "Tetro option"
  ghostBlock :: "Tetro option"
  blockCount :: nat
  lineClears :: int
  level :: int
  points :: int
  highscore :: int
  clearedBlocks :: "Cell list"
  gameEnd :: bool
  seed :: int
  canHoldAgain :: bool
  changeInLevel :: bool

datatype Action =
  Move Direction int
| Tick int
| Rotate
| Hold
| Drop
| Collision

subsection \<open>Array reads and number formatting\<close>

definition idx :: "'a list \<Rightarrow> nat \<Rightarrow> 'a option" where
  "idx xs i = (if i < length xs then Some (xs ! i) else None)"

definition idx_int :: "'a list \<Rightarrow> int \<Rightarrow> 'a option" where
  "idx_int xs i = (if 0 \<le> i \<and> i < int (length xs) then Some (xs ! nat i) else None)"

definition digit_char :: "nat \<Rightarrow> char" where
  "digit_char d = char_of (48 + d)"

function string_of_nat :: "nat \<Rightarrow> string" where
  "string_of_nat n =
     (if n < 10 then [digit_char n] else string_of_nat (n div 10) @ [digit_char (n mod 10)])"
  by pat_completeness auto
termination
  by (relation "measure (\<lambda>n. n)") auto

declare string_of_nat.simps [simp del]

subsection \<open>Tables\<close>

definition TetroShapes :: "ShapeLetters list" where
  "TetroShapes = [Shape_I, Shape_T, Shape_J, Shape_L, Shape_O, Shape_S, Shape_Z]"

fun TetroColorMap :: "ShapeLetters \<Rightarrow> string" where
  "TetroColorMap Shape_I = ''cyan''"
| "TetroColorMap Shape_T = ''purple''"
| "TetroColorMap Shape_J = ''blue''"
| "TetroColorMap Shape_L = ''orange''"
| "TetroColorMap Shape_O = ''yellow''"
| "TetroColorMap Shape_S = ''lime''"
| "TetroColorMap Shape_Z = ''red''"

fun TetroStartPosMap :: "ShapeLetters \<Rightarrow> (int \<times> int) list list" where
  "TetroStartPosMap Shape_I =
     [[(-1, 0), (0, 0), (1, 0), (2, 0)],
      [(1, -1), (1, 0), (1, 1), (1, 2)],
      [(2, 1), (1, 1), (0, 1), (-1, 1)],
      [(0, 2), (0, 1), (0, 0), (0, -1)]]"
| "TetroStartPosMap Shape_T =
     [[(-1, 0), (0, 0), (0, -1), (1, 0)],
      [(0, -1), (0, 0), (1, 0), (0, 1)],
      [(1, 0), (0, 0), (0, 1), (-1, 0)],
      [(0, 1), (0, 0), (-1, 0), (0, -1)]]"
| "TetroStartPosMap Shape_S =
     [[(-1, 0), (0, 0), (0, -1), (1, -1)],
      [(0, -1), (0, 0), (1, 0), (1, 1)],
      [(1, 0), (0, 0), (0, 1), (-1, 1)],
      [(0, 1), (0, 0), (-1, 0), (-1, -1)]]"
| "TetroStartPosMap Shape_Z =
     [[(-1, -1), (0, 0), (0, -1), (1, 0)],
      [(1, -1), (0, 0), (1, 0), (0, 1)],
      [(1, 1), (0, 0), (0, 1), (-1, 0)],
      [(-1, 1), (0, 0), (-1, 0), (0, -1)]]"
| "TetroStartPosMap Shape_O =
     [[(0, -1), (0, 0), (1, -1), (1, 0)]]"
| "TetroStartPosMap Shape_J =
     [[(-1, -1), (0, 0), (-1, 0), (1, 0)],
      [(1, -1), (0, 0), (0, -1), (0, 1)],
      [(1, 1), (0, 0), (1, 0), (-1, 0)],
      [(-1, 1), (0, 0), (0, 1), (0, -1)]]"
| "TetroStartPosMap Shape_L =
     [[(1, -1), (0, 0), (-1, 0), (1, 0)],
      [(1, 1), (0, 0), (0, -1), (0, 1)],
      [(-1, 1), (0, 0), (1, 0), (-1, 0)],
      [(-1, -1), (0, 0), (0, 1), (0, -1)]]"

definition JLTSZWallKickData :: "(int \<times> int) list list" where
  "JLTSZWallKickData =
     [[(0, 0), (-1, 0), (-1, -1), (0, 2), (-1, 2)],
      [(0, 0), (-1, 0), (-1, 1), (0, -2), (-1, -2)],
      [(0, 0), (1, 0), (1, -1), (0, 2), (1, 2)],
      [(0, 0), (1, 0), (1, 1), (0, -2), (1, -2)]]"

definition IWallKickData :: "(int \<times> int) list list" where
  "IWallKickData =
     [[(0, 0), (1, 0), (-2, 0), (1, -2), (-2, 1)],
      [(0, 0), (-2, 0), (1, 0), (-2, -1), (1, 2)],
      [(0, 0), (-1, 0), (2, 0), (-1, 2), (2, -1)],
      [(0, 0), (2, 0), (-1, 0), (2, 1), (-1, -2)]]"

definition OWallKickData :: "(int \<times> int) list list" where
  "OWallKickData = [[(0, 0)]]"

fun PieceWallKickMap :: "ShapeLetters \<Rightarrow> (int \<times> int) list list" where
  "PieceWallKickMap Shape_I = IWallKickData"
| "PieceWallKickMap Shape_J = JLTSZWallKickData"
| "PieceWallKickMap Shape_L = JLTSZWallKickData"
| "PieceWallKickMap Shape_O = OWallKickData"
| "PieceWallKickMap Shape_S = JLTSZWallKickData"
| "PieceWallKickMap Shape_T = JLTSZWallKickData"
| "PieceWallKickMap Shape_Z = JLTSZWallKickData"

subsection \<open>The pseudo-random number generator\<close>

text \<open>
  \<^verbatim>\<open>hash = (seed) => (RNG.a * seed + RNG.c) % RNG.m\<close> computes in doubles. On an
  integer seed the exact product and the exact sum are integers; each is rounded to
  the nearest double (53 significant bits, ties to the even significand), which
  \<open>to_double\<close> does on integers. \<^verbatim>\<open>%\<close> is exact and takes the sign of the dividend.
\<close>

definition to_double :: "int \<Rightarrow> int" where
  "to_double n =
     (let a = \<bar>n\<bar> in
      if a < 2 ^ 53 then n
      else
        let u = 2 ^ (nat (bitlen a) - 53);
            q = a div u;
            r = a mod u;
            q' = (if 2 * r > u \<or> (2 * r = u \<and> odd q) then q + 1 else q)
        in sgn n * (q' * u))"

definition js_rem :: "int \<Rightarrow> int \<Rightarrow> int" where
  "js_rem a b = sgn a * (\<bar>a\<bar> mod \<bar>b\<bar>)"

definition RNG_m :: int where "RNG_m = 2147483648"
definition RNG_a :: int where "RNG_a = 1103515245"
definition RNG_c :: int where "RNG_c = 12345"

definition RNG_hash :: "int \<Rightarrow> int" where
  "RNG_hash sd = js_rem (to_double (to_double (RNG_a * sd) + RNG_c)) RNG_m"

text \<open>
  \<^verbatim>\<open>scale = (hash) => Math.floor((hash / (RNG.m - 1)) * 7)\<close>, in exact arithmetic.
  For an integer \<open>h\<close> with \<open>\<bar>h\<bar> < 2^31\<close> the doubles give the same floor: the quotient
  is at most 7 in size, so the two roundings move it by less than \<open>2^-49\<close>, while
  \<open>7 * h / (2^31 - 1)\<close> is either an integer (only for \<open>h = 0\<close> and \<open>h = \<plusminus>(2^31 - 1)\<close>,
  \<open>2^31 - 1\<close> being prime, where the doubles are exact) or at least \<open>2^-31\<close> away
  from one.
\<close>

definition RNG_scale :: "int \<Rightarrow> int" where
  "RNG_scale h = \<lfloor>(real_of_int h / real_of_int (RNG_m - 1)) * 7\<rfloor>"

subsection \<open>Utility functions\<close>

definition createBlock :: "int \<Rightarrow> int \<Rightarrow> string \<Rightarrow> string \<Rightarrow> Cell" where
  "createBlock px py blockId col =
     \<lparr>cell_x = px, cell_y = py, cell_width = Block_WIDTH, cell_height = Block_HEIGHT,
      cell_id = blockId, cell_color = col\<rparr>"

definition hasBlocksAround :: "Cell list \<Rightarrow> State \<Rightarrow> int \<Rightarrow> Direction \<Rightarrow> bool" where
  "hasBlocksAround cs s offset direction =
     (length (filter (\<lambda>c.
        let xPos = (if direction = Dir_x then cell_x c + offset else cell_x c);
            yPos = (if direction = Dir_y then cell_y c + offset else cell_y c)
        in length (filter (\<lambda>b. xPos = cell_x b \<and> yPos = cell_y b) (blocks s)) = 0) cs)
      \<noteq> length cs)"

definition hasBoundaryAround :: "Cell list \<Rightarrow> State \<Rightarrow> int \<Rightarrow> Direction \<Rightarrow> bool" where
  "hasBoundaryAround cs s offset direction =
     (length (filter (\<lambda>c.
        if direction = Dir_x
        then cell_x c + offset > 0 - Block_WIDTH \<and> cell_x c + offset < CANVAS_WIDTH
        else cell_y c + offset < CANVAS_HEIGHT) cs)
      \<noteq> length cs)"

definition boundaryX :: "Cell list \<Rightarrow> State \<Rightarrow> int \<Rightarrow> Cell list" where
  "boundaryX cs s offset =
     (case currentBlock s of
        None \<Rightarrow> cs
      | Some cb \<Rightarrow>
          if collided cb then cs
          else
            let hasBlocksBeside = hasBlocksAround cs s offset Dir_x;
                hasBoundaryBeside = hasBoundaryAround cs s offset Dir_x
            in if hasBlocksBeside \<or> hasBoundaryBeside then cs
               else map (\<lambda>c. c\<lparr>cell_x := cell_x c + offset\<rparr>) cs)"

definition boundaryY :: "Cell list \<Rightarrow> State \<Rightarrow> int \<Rightarrow> Cell list" where
  "boundaryY cs s offset =
     (case currentBlock s of
        None \<Rightarrow> cs
      | Some cb \<Rightarrow>
          if collided cb then cs
          else
            let hasBlocksBelow = hasBlocksAround cs s offset Dir_y;
                hasBoundaryBelow = hasBoundaryAround cs s offset Dir_y
            in if hasBlocksBelow \<or> hasBoundaryBelow then cs
               else map (\<lambda>c. c\<lparr>cell_y := cell_y c + offset\<rparr>) cs)"

definition itemCollided :: "int \<times> int \<Rightarrow> int \<times> int \<Rightarrow> bool" where
  "itemCollided p1 p2 = (fst p1 = fst p2 \<and> snd p1 = snd p2 - Block_HEIGHT)"

text \<open>\<^verbatim>\<open>s.currentBlock!.cells\<close> throws when there is no current block.\<close>

definition collisionDetection :: "State \<Rightarrow> error + State" where
  "collisionDetection s =
     (case currentBlock s of
        None \<Rightarrow> Inl TypeError
      | Some cb \<Rightarrow>
          let blockAndBoundaryCollided =
                (length (filter (\<lambda>c. itemCollided (cell_x c, cell_y c) (cell_x c, CANVAS_HEIGHT))
                   (cells cb)) > 0);
              blockAndBlocksCollided =
                (length (filter (\<lambda>c.
                   length (filter (\<lambda>b. itemCollided (cell_x c, cell_y c) (cell_x b, cell_y b))
                     (blocks s)) > 0) (cells cb)) > 0);
              collisionCondition = (blockAndBoundaryCollided \<or> blockAndBlocksCollided)
          in Inr (s\<lparr>currentBlock := Some (cb\<lparr>collided := collisionCondition\<rparr>),
                    blocks := (if collisionCondition then blocks s @ cells cb else blocks s),
                    seed := (if collisionCondition then RNG_hash (seed s) else seed s),
                    canHoldAgain := (if collisionCondition then True else canHoldAgain s)\<rparr>))"


text \<open>
  The local constants of \<^verbatim>\<open>lineClearCheck\<close>, one definition each. \<open>block\<close> is the
  collided current block.
\<close>

definition tetroBlockMakingLine :: "State \<Rightarrow> Tetro \<Rightarrow> Cell list" where
  "tetroBlockMakingLine state block =
     filter (\<lambda>c. int (length (filter (\<lambda>b. cell_y b = cell_y c) (blocks state))) = GRID_WIDTH)
       (cells block)"

definition blockMakingFullLine :: "State \<Rightarrow> Tetro \<Rightarrow> Cell list" where
  "blockMakingFullLine state block =
     foldl (\<lambda>acc cell.
        if length (filter (\<lambda>c. cell_y c = cell_y cell) acc) > 0 then acc else acc @ [cell])
       [] (tetroBlockMakingLine state block)"

definition AllBlockInFullLine :: "State \<Rightarrow> Tetro \<Rightarrow> Cell list" where
  "AllBlockInFullLine state block =
     filter (\<lambda>b. length (filter (\<lambda>l. cell_y b = cell_y l) (blockMakingFullLine state block)) > 0)
       (blocks state)"

definition blocksAbove :: "State \<Rightarrow> Tetro \<Rightarrow> Cell list" where
  "blocksAbove state block =
     map (\<lambda>b.
        let lineClearNoBelow =
              length (filter (\<lambda>l. cell_y b < cell_y l) (blockMakingFullLine state block))
        in b\<lparr>cell_y := cell_y b + int lineClearNoBelow * Block_HEIGHT\<rparr>)
       (foldl (\<lambda>acc b.
          let isBlockGettingCleared =
                (length (filter (\<lambda>l. cell_y l = cell_y b) (blockMakingFullLine state block)) > 0)
          in if isBlockGettingCleared then acc else acc @ [b])
         []
         (filter (\<lambda>b. length (filter (\<lambda>l. cell_y b < cell_y l) (blockMakingFullLine state block)) > 0)
            (blocks state)))"

definition blocksBelow :: "State \<Rightarrow> Tetro \<Rightarrow> Cell list" where
  "blocksBelow state block =
     foldl (\<lambda>acc b.
        let isBlockGettingCleared =
              (length (filter (\<lambda>l. cell_y l = cell_y b) (blockMakingFullLine state block)) > 0);
            isBlockInBlocksAbove =
              (length (filter (\<lambda>a. cell_id b = cell_id a) (blocksAbove state block)) > 0)
        in if isBlockGettingCleared \<or> isBlockInBlocksAbove then acc else acc @ [b])
       []
       (filter (\<lambda>b. length (filter (\<lambda>l. cell_y b > cell_y l) (blockMakingFullLine state block)) > 0)
          (blocks state))"

text \<open>
  \<^verbatim>\<open>noOfLinesCleared = AllBlockInFullLine.length / Constants.GRID_WIDTH\<close> is a division of
  doubles; it is written with \<open>div\<close> here, and \<open>AllBlockInFullLine_length\<close> below shows
  that the length is a multiple of \<open>GRID_WIDTH\<close>, so the quotient is exact.
  \<^verbatim>\<open>Math.floor(n / 10)\<close> on an integer \<open>n\<close> is \<open>n div 10\<close>.
\<close>

definition lineClearCheck :: "State \<Rightarrow> State" where
  "lineClearCheck state =
     (case currentBlock state of
        None \<Rightarrow> state\<lparr>changeInLevel := False\<rparr>
      | Some block \<Rightarrow>
          if \<not> collided block then state\<lparr>changeInLevel := False\<rparr>
          else if length (AllBlockInFullLine state block) = 0
          then state\<lparr>changeInLevel := False\<rparr>
          else
            let noOfLinesCleared = int (length (AllBlockInFullLine state block)) div GRID_WIDTH;
                pts = points state + noOfLinesCleared * 100;
                lvl = (lineClears state + noOfLinesCleared) div 10;
                change = (level state \<noteq> lvl)
            in state\<lparr>blocks := blocksAbove state block @ blocksBelow state block,
                      lineClears := lineClears state + noOfLinesCleared,
                      points := pts,
                      clearedBlocks := AllBlockInFullLine state block,
                      highscore := (if highscore state < pts then pts else highscore state),
                      level := lvl,
                      changeInLevel := change\<rparr>)"

subsection \<open>State processing\<close>

definition initialState :: "int \<Rightarrow> State" where
  "initialState initialSeed =
     \<lparr>currentBlock = None, blocks = [], nextBlock = None, heldBlock = None, ghostBlock = None,
      blockCount = 0, lineClears = 0, level = 0, points = 0, highscore = 0,
      clearedBlocks = [], gameEnd = False, seed = initialSeed, canHoldAgain = True,
      changeInLevel = False\<rparr>"

text \<open>\<^verbatim>\<open>const initialSeed = RNG.hash(new Date().getTime())\<close>, the clock reading a parameter.\<close>

definition initialSeed :: "int \<Rightarrow> int" where
  "initialSeed time = RNG_hash time"

definition Move_perform :: "Direction \<Rightarrow> int \<Rightarrow> State \<Rightarrow> error + State" where
  "Move_perform direction offset s =
     (case currentBlock s of
        None \<Rightarrow> Inr s
      | Some cb \<Rightarrow>
          let updatedCells =
                (if direction = Dir_x then boundaryX (cells cb) s offset
                 else boundaryY (cells cb) s offset)
          in Inr (s\<lparr>currentBlock :=
                      Some (cb\<lparr>cells := updatedCells, originBlock := idx updatedCells 1\<rparr>)\<rparr>))"

text \<open>
  \<^verbatim>\<open>TetroShapes[randomNumber]\<close> is \<^verbatim>\<open>undefined\<close> unless the number is an index of the
  array, and then \<^verbatim>\<open>TetroStartPosMap[chosenShape][0]\<close> throws.
\<close>

definition Tick_createTetrominoes ::
  "int \<Rightarrow> int \<Rightarrow> nat \<Rightarrow> int \<Rightarrow> bool \<Rightarrow> State \<Rightarrow> error + Tetro" where
  "Tick_createTetrominoes px py blockCnt sd isPreview state =
     (let randomNumber = RNG_scale sd in
      case idx_int TetroShapes randomNumber of
        None \<Rightarrow> Inl TypeError
      | Some chosenShape \<Rightarrow>
          (case idx (TetroStartPosMap chosenShape) 0 of
             None \<Rightarrow> Inl TypeError
           | Some shapeMap \<Rightarrow>
               let tetroColor = TetroColorMap chosenShape;
                   startPosX = px;
                   checkValidBlockSpawn =
                     (length (filter (\<lambda>(dx, dy).
                        let posX = startPosX + dx * Block_WIDTH;
                            posY = Block_HEIGHT + dy * Block_HEIGHT
                        in length (filter (\<lambda>b. posX = cell_x b \<and> posY = cell_y b) (blocks state)) = 0)
                        shapeMap) = 4);
                   startPosY = (if checkValidBlockSpawn \<or> isPreview then py else 0);
                   tetro =
                     map (\<lambda>((dx, dy), index).
                        createBlock (startPosX + dx * Block_WIDTH) (startPosY + dy * Block_HEIGHT)
                          (''block '' @ string_of_nat (blockCnt + index)) tetroColor)
                       (zip shapeMap [0..<length shapeMap]);
                   findPivot =
                     (case filter (\<lambda>c. cell_x c = startPosX \<and> cell_y c = startPosY) tetro of
                        [] \<Rightarrow> None
                      | c # _ \<Rightarrow> Some c)
               in Inr \<lparr>cells = tetro, originBlock = findPivot, collided = False, rotation = 0,
                       shape = chosenShape, tetro_seed = sd, blockStartCount = blockCnt\<rparr>))"

text \<open>
  \<^verbatim>\<open>mapGhostTetro\<close> reads \<^verbatim>\<open>block.cells[index]\<close> for every index of \<^verbatim>\<open>cells\<close>, and throws
  when the block has fewer cells.
\<close>

definition mapGhostTetro :: "Cell list \<Rightarrow> Tetro \<Rightarrow> int \<Rightarrow> error + Cell list" where
  "mapGhostTetro cs block offset =
     (if length (cells block) < length cs then Inl TypeError
      else Inr (map (\<lambda>(cell, bc).
                  cell\<lparr>cell_x := cell_x bc, cell_y := cell_y bc + offset, cell_color := ''grey''\<rparr>)
                 (zip cs (cells block))))"

text \<open>
  The local constants of \<^verbatim>\<open>Tick.perform\<close> that place the ghost block, one definition
  each. \<^verbatim>\<open>Math.min()\<close> of no cells is \<^verbatim>\<open>Infinity\<close>, no index holds it, \<^verbatim>\<open>yValueIndex\<close>
  stays \<^verbatim>\<open>[0, 0]\<close> and \<^verbatim>\<open>block.cells[0].y\<close> throws: the empty case of \<open>yOffset\<close>. With
  cells, \<^verbatim>\<open>yValueIndex[0]\<close> is 0 or an index that \<^verbatim>\<open>getIndexOfLocation\<close> holds, so the
  read is in range.
\<close>

definition ghostBlockYLocation :: "State \<Rightarrow> Tetro \<Rightarrow> int list" where
  "ghostBlockYLocation state block =
     map (\<lambda>c.
        foldl (\<lambda>acc b.
           if cell_x c = cell_x b \<and> cell_y b < acc \<and> cell_y b > cell_y c
           then cell_y b else acc) 400 (blocks state)
        - Block_HEIGHT) (cells block)"

definition getIndexOfLocation :: "int list \<Rightarrow> int \<Rightarrow> nat list" where
  "getIndexOfLocation locations getMinY =
     filter (\<lambda>i. locations ! i = getMinY) [0..<length locations]"

definition yValueIndex :: "Tetro \<Rightarrow> nat list \<Rightarrow> nat \<times> int" where
  "yValueIndex block indices =
     foldl (\<lambda>acc val.
        if snd acc > cell_y (cells block ! val) then acc
        else (val, cell_y (cells block ! val)))
       (0, 0) indices"

definition yOffset :: "State \<Rightarrow> Tetro \<Rightarrow> error + int" where
  "yOffset state block =
     (case ghostBlockYLocation state block of
        [] \<Rightarrow> Inl TypeError
      | v # vs \<Rightarrow>
          let getMinY = fold min vs v
          in Inr (getMinY
                  - cell_y (cells block
                            ! fst (yValueIndex block (getIndexOfLocation (v # vs) getMinY)))))"

text \<open>
  \<^verbatim>\<open>ghostTetro\<close>, \<^verbatim>\<open>ghostCells\<close> and \<^verbatim>\<open>ghostBlock\<close>. The collision test of the ghost cells
  reads the blocks of \<open>s\<close>, the snapshot before line-clear resolution, as the source
  does.
\<close>

definition Tick_ghostBlock :: "State \<Rightarrow> State \<Rightarrow> Tetro \<Rightarrow> int \<Rightarrow> error + Tetro" where
  "Tick_ghostBlock s state block offset =
     (let ghostTetroBlockCount =
            (case ghostBlock state of
               Some g \<Rightarrow> blockStartCount g
             | None \<Rightarrow> blockCount state + 4)
      in
      case Tick_createTetrominoes 0 0 ghostTetroBlockCount (tetro_seed block) True state of
        Inl e \<Rightarrow> Inl e
      | Inr ghostTetro \<Rightarrow>
          (case mapGhostTetro (cells ghostTetro) block offset of
             Inl e \<Rightarrow> Inl e
           | Inr ghostCells \<Rightarrow>
               (case (if hasBlocksAround ghostCells s 0 Dir_x
                         \<or> hasBoundaryAround ghostCells s 0 Dir_y
                      then mapGhostTetro ghostCells block (offset - Block_HEIGHT)
                      else Inr ghostCells) of
                  Inl e \<Rightarrow> Inl e
                | Inr ghostCells' \<Rightarrow> Inr (ghostTetro\<lparr>cells := ghostCells'\<rparr>))))"

definition isBlockSpawningOnOtherBlocks :: "State \<Rightarrow> Tetro \<Rightarrow> bool" where
  "isBlockSpawningOnOtherBlocks state block =
     (length (filter (\<lambda>c.
        length (filter (\<lambda>b. cell_x c = cell_x b \<and> cell_y c = cell_y b) (blocks state)) > 0)
        (cells block)) > 0)"

text \<open>
  \<^verbatim>\<open>Tick.perform\<close>. \<open>spawn\<close> and \<open>preview\<close> are the two calls of \<^verbatim>\<open>createTetrominoes\<close>
  that the source writes inside the conditionals for \<^verbatim>\<open>block\<close> and \<^verbatim>\<open>nextBlock\<close>;
  \<^verbatim>\<open>state.currentBlock!.collided\<close> throws when a preview block exists without a
  current block.
\<close>

definition Tick_perform :: "int \<Rightarrow> State \<Rightarrow> error + State" where
  "Tick_perform time s =
     (let state = lineClearCheck s;
          spawn = Tick_createTetrominoes (CANVAS_WIDTH div 2 - Block_WIDTH) Block_HEIGHT
                    (blockCount state) (seed state) False state
      in
      case (case currentBlock state of
              None \<Rightarrow> spawn
            | Some cb \<Rightarrow> if collided cb then spawn else Inr cb) of
        Inl e \<Rightarrow> Inl e
      | Inr block \<Rightarrow>
          (case yOffset state block of
             Inl e \<Rightarrow> Inl e
           | Inr offset \<Rightarrow>
               (case Tick_ghostBlock s state block offset of
                  Inl e \<Rightarrow> Inl e
                | Inr ghost \<Rightarrow>
                    let nextTetroBlockCount =
                          (case ghostBlock state of
                             Some g \<Rightarrow> blockCount state + 4
                           | None \<Rightarrow> blockCount state + 8);
                        preview =
                          Tick_createTetrominoes (PREVIEW_WIDTH div 2) (PREVIEW_HEIGHT div 2)
                            nextTetroBlockCount (RNG_hash (seed state)) True state
                    in
                    (case (case nextBlock state of
                             None \<Rightarrow> preview
                           | Some nb \<Rightarrow>
                               (case currentBlock state of
                                  None \<Rightarrow> Inl TypeError
                                | Some cb \<Rightarrow> if collided cb then preview else Inr nb)) of
                       Inl e \<Rightarrow> Inl e
                     | Inr next \<Rightarrow>
                         let count =
                               (case currentBlock state of
                                  None \<Rightarrow>
                                    (case ghostBlock state of
                                       Some g \<Rightarrow> blockCount state + 4
                                     | None \<Rightarrow> blockCount state + 8)
                                | Some cb \<Rightarrow>
                                    if collided cb
                                    then (case ghostBlock state of
                                            Some g \<Rightarrow> blockCount state + 4
                                          | None \<Rightarrow> blockCount state + 8)
                                    else blockCount state)
                         in Inr (state\<lparr>currentBlock := Some block,
                                        nextBlock := Some next,
                                        ghostBlock := Some ghost,
                                        blockCount := count,
                                        gameEnd := isBlockSpawningOnOtherBlocks state block\<rparr>)))))"

definition Collision_perform :: "State \<Rightarrow> error + State" where
  "Collision_perform s = collisionDetection s"

text \<open>
  \<^verbatim>\<open>checkAllCollision\<close> is the local function of \<^verbatim>\<open>Rotate.perform\<close> (it closes over \<open>s\<close>);
  \<open>offsetBlock\<close> is the map written twice there, once inside the wall-kick filter
  (\<^verbatim>\<open>newOffsetBlock\<close>) and once for the chosen candidate (\<^verbatim>\<open>blockAfterWallKick\<close>).
\<close>

definition checkAllCollision :: "State \<Rightarrow> Cell list \<Rightarrow> bool" where
  "checkAllCollision s cs =
     (hasBlocksAround cs s 0 Dir_x \<or> hasBoundaryAround cs s 0 Dir_x
      \<or> hasBoundaryAround cs s 0 Dir_y)"

definition offsetBlock :: "int \<times> int \<Rightarrow> Cell list \<Rightarrow> Cell list" where
  "offsetBlock kick cs =
     map (\<lambda>cell. cell\<lparr>cell_x := cell_x cell + fst kick * Block_WIDTH,
                       cell_y := cell_y cell + - snd kick * Block_HEIGHT\<rparr>) cs"

text \<open>
  The map that builds \<^verbatim>\<open>blockAfterRotation\<close> reads \<^verbatim>\<open>getRotationMap[index]\<close> and
  \<^verbatim>\<open>centralRotationBlock.x\<close> once per cell: with no cell nothing is read, otherwise a
  missing pivot or a missing table entry throws.
\<close>

definition blockAfterRotation ::
  "Tetro \<Rightarrow> (int \<times> int) list \<Rightarrow> int \<Rightarrow> int \<Rightarrow> error + Cell list" where
  "blockAfterRotation cb getRotationMap relativeToOriginXOffset relativeToOriginYOffset =
     (if cells cb = [] then Inr []
      else
        case originBlock cb of
          None \<Rightarrow> Inl TypeError
        | Some centralRotationBlock \<Rightarrow>
            if length getRotationMap < length (cells cb) then Inl TypeError
            else Inr (map (\<lambda>(cell, blockRotation).
                        let newPosX = cell_x centralRotationBlock
                              + (fst blockRotation + relativeToOriginXOffset) * Block_WIDTH;
                            newPosY = cell_y centralRotationBlock
                              + (snd blockRotation + relativeToOriginYOffset) * Block_HEIGHT
                        in createBlock newPosX newPosY (cell_id cell) (cell_color cell))
                       (zip (cells cb) getRotationMap)))"

definition Rotate_perform :: "State \<Rightarrow> error + State" where
  "Rotate_perform s =
     (case currentBlock s of
        None \<Rightarrow> Inr s
      | Some cb \<Rightarrow>
          let currentRotation = (rotation cb + 1) mod length (TetroStartPosMap (shape cb)) in
          (case idx (TetroStartPosMap (shape cb)) currentRotation of
             None \<Rightarrow> Inl TypeError
           | Some getRotationMap \<Rightarrow>
               (case idx (TetroStartPosMap (shape cb)) (rotation cb) of
                  None \<Rightarrow> Inl TypeError
                | Some getPreviousRotationBlock \<Rightarrow>
                    (case idx getPreviousRotationBlock 1 of
                       None \<Rightarrow> Inl TypeError
                     | Some prevPivot \<Rightarrow>
                         let relativeToOriginXOffset = 0 - fst prevPivot;
                             relativeToOriginYOffset = 0 - snd prevPivot
                         in
                         (case blockAfterRotation cb getRotationMap
                                 relativeToOriginXOffset relativeToOriginYOffset of
                            Inl e \<Rightarrow> Inl e
                          | Inr rotated \<Rightarrow>
                              if \<not> checkAllCollision s rotated
                              then Inr (s\<lparr>currentBlock :=
                                          Some (cb\<lparr>rotation := currentRotation,
                                                    cells := rotated,
                                                    originBlock := idx rotated 1\<rparr>)\<rparr>)
                              else
                                (case idx (PieceWallKickMap (shape cb)) currentRotation of
                                   None \<Rightarrow> Inl TypeError
                                 | Some kicks \<Rightarrow>
                                     (case filter (\<lambda>kick.
                                              \<not> checkAllCollision s (offsetBlock kick rotated)) kicks of
                                        [] \<Rightarrow> Inr s
                                      | getFirstPossibleWallKick # _ \<Rightarrow>
                                          let blockAfterWallKick =
                                                offsetBlock getFirstPossibleWallKick rotated
                                          in Inr (s\<lparr>currentBlock :=
                                                     Some (cb\<lparr>rotation := currentRotation,
                                                               cells := blockAfterWallKick,
                                                               originBlock :=
                                                                 idx blockAfterWallKick 1\<rparr>)\<rparr>))))))))"

text \<open>\<^verbatim>\<open>s.nextBlock!\<close> in \<^verbatim>\<open>Hold.perform\<close> throws when there is no preview block.\<close>

definition Hold_perform :: "State \<Rightarrow> error + State" where
  "Hold_perform s =
     (case currentBlock s of
        None \<Rightarrow> Inr s
      | Some cb \<Rightarrow>
          if collided cb \<or> \<not> canHoldAgain s then Inr s
          else
            (case (case heldBlock s of
                     Some hb \<Rightarrow>
                       Tick_createTetrominoes (CANVAS_WIDTH div 2 - Block_WIDTH) Block_HEIGHT
                         (blockStartCount hb) (tetro_seed hb) False s
                   | None \<Rightarrow>
                       (case nextBlock s of
                          None \<Rightarrow> Inl TypeError
                        | Some nb \<Rightarrow>
                            Tick_createTetrominoes (CANVAS_WIDTH div 2 - Block_WIDTH) Block_HEIGHT
                              (blockStartCount nb) (tetro_seed nb) False s)) of
               Inl e \<Rightarrow> Inl e
             | Inr current \<Rightarrow>
                 (case (case heldBlock s of
                          Some hb \<Rightarrow> Inr (nextBlock s)
                        | None \<Rightarrow>
                            (case Tick_createTetrominoes (PREVIEW_WIDTH div 2) (PREVIEW_HEIGHT div 2)
                                    (blockCount s + 4) (RNG_hash (RNG_hash (seed s))) True s of
                               Inl e \<Rightarrow> Inl e
                             | Inr t \<Rightarrow> Inr (Some t))) of
                    Inl e \<Rightarrow> Inl e
                  | Inr next \<Rightarrow>
                      (case Tick_createTetrominoes (PREVIEW_WIDTH div 2) (PREVIEW_HEIGHT div 2)
                              (blockStartCount cb) (tetro_seed cb) True s of
                         Inl e \<Rightarrow> Inl e
                       | Inr held \<Rightarrow>
                           Inr (s\<lparr>currentBlock := Some current,
                                  nextBlock := next,
                                  heldBlock := Some held,
                                  blockCount :=
                                    (case heldBlock s of
                                       Some hb \<Rightarrow> blockCount s
                                     | None \<Rightarrow> blockCount s + 4),
                                  seed :=
                                    (case heldBlock s of
                                       Some hb \<Rightarrow> seed s
                                     | None \<Rightarrow> RNG_hash (seed s)),
                                  canHoldAgain := False\<rparr>)))))"

text \<open>
  \<^verbatim>\<open>droppedCell\<close> reads \<^verbatim>\<open>s.ghostBlock!.cells[index].x\<close> once per cell of the current
  block, and throws when the ghost block or its cell is missing.
\<close>

definition droppedCell :: "Tetro \<Rightarrow> State \<Rightarrow> error + Cell list" where
  "droppedCell cb s =
     (if cells cb = [] then Inr []
      else
        case ghostBlock s of
          None \<Rightarrow> Inl TypeError
        | Some g \<Rightarrow>
            if length (cells g) < length (cells cb) then Inl TypeError
            else Inr (map (\<lambda>(cell, gc). cell\<lparr>cell_x := cell_x gc, cell_y := cell_y gc\<rparr>)
                       (zip (cells cb) (cells g))))"

definition Drop_perform :: "State \<Rightarrow> error + State" where
  "Drop_perform s =
     (case currentBlock s of
        None \<Rightarrow> Inr s
      | Some cb \<Rightarrow>
          if collided cb then Inr s
          else
            (case droppedCell cb s of
               Inl e \<Rightarrow> Inl e
             | Inr dropped \<Rightarrow>
                 Inr (s\<lparr>currentBlock := Some (cb\<lparr>cells := dropped, collided := True\<rparr>),
                        canHoldAgain := True,
                        blocks := blocks s @ dropped,
                        seed := RNG_hash (seed s)\<rparr>)))"

text \<open>\<^verbatim>\<open>action.perform(state)\<close>, dispatched on the class of the action.\<close>

fun perform :: "Action \<Rightarrow> State \<Rightarrow> error + State" where
  "perform (Move direction offset) s = Move_perform direction offset s"
| "perform (Tick time) s = Tick_perform time s"
| "perform Rotate s = Rotate_perform s"
| "perform Hold s = Hold_perform s"
| "perform Drop s = Drop_perform s"
| "perform Collision s = Collision_perform s"

text \<open>
  The fold of \<^verbatim>\<open>main.ts\<close>, \<^verbatim>\<open>scan((state, action) => action.perform(state), initialState)\<close>:
  \<open>run\<close> gives the last snapshot, \<open>snapshots\<close> every snapshot the scan emits. A throw
  ends the stream.
\<close>

fun run :: "State \<Rightarrow> Action list \<Rightarrow> error + State" where
  "run s [] = Inr s"
| "run s (a # as) = (case perform a s of Inl e \<Rightarrow> Inl e | Inr s' \<Rightarrow> run s' as)"

fun snapshots :: "State \<Rightarrow> Action list \<Rightarrow> State list" where
  "snapshots s [] = []"
| "snapshots s (a # as) = (case perform a s of Inl e \<Rightarrow> [] | Inr s' \<Rightarrow> s' # snapshots s' as)"

section \<open>Notions the properties are stated with\<close>

text \<open>
  None of the following is code of the program. These definitions put the words of the
  specification into terms, so that a property can compare them with the functions
  above.
\<close>

subsection \<open>Snapshots\<close>

definition cellPositions :: "Cell list \<Rightarrow> (int \<times> int) list" where
  "cellPositions cs = map (\<lambda>c. (cell_x c, cell_y c)) cs"

definition noOverlap :: "State \<Rightarrow> bool" where
  "noOverlap s = distinct (cellPositions (blocks s))"


definition collidedBlock :: "State \<Rightarrow> bool" where
  "collidedBlock s = (case currentBlock s of None \<Rightarrow> False | Some cb \<Rightarrow> collided cb)"

definition currentCells :: "State \<Rightarrow> Cell list" where
  "currentCells s = (case currentBlock s of None \<Rightarrow> [] | Some cb \<Rightarrow> cells cb)"

text \<open>Two actions are the same up to the time stamp a Tick carries.\<close>

definition sameAction :: "Action \<Rightarrow> Action \<Rightarrow> bool" where
  "sameAction a b = (case (a, b) of (Tick t, Tick u) \<Rightarrow> True | _ \<Rightarrow> a = b)"

subsection \<open>Line clears\<close>

text \<open>
  The rows that the collided block touches and that hold exactly \<open>GRID_WIDTH\<close> committed
  cells, each once; \<open>clearedRows\<close> are the rows a line-clear resolution clears.
\<close>

definition fullRows :: "State \<Rightarrow> Tetro \<Rightarrow> int list" where
  "fullRows state block =
     remdups (filter (\<lambda>r. int (length (filter (\<lambda>b. cell_y b = r) (blocks state))) = GRID_WIDTH)
       (map cell_y (cells block)))"

definition clearedRows :: "State \<Rightarrow> int list" where
  "clearedRows s =
     (case currentBlock s of
        None \<Rightarrow> []
      | Some block \<Rightarrow> if collided block then fullRows s block else [])"


subsection \<open>Moves and bounds\<close>

text \<open>
  \<open>outsideAllowedRegion\<close> is the region the code enforces, \<open>outsideClaimedRegion\<close> the
  half-open interval \<open>[-cellWidth, canvasWidth)\<close> of the specification.
\<close>

definition shiftCell :: "Direction \<Rightarrow> int \<Rightarrow> Cell \<Rightarrow> Cell" where
  "shiftCell direction offset c =
     (if direction = Dir_x then c\<lparr>cell_x := cell_x c + offset\<rparr>
      else c\<lparr>cell_y := cell_y c + offset\<rparr>)"

definition occupied :: "State \<Rightarrow> Cell \<Rightarrow> bool" where
  "occupied s c = (\<exists>b\<in>set (blocks s). cell_x c = cell_x b \<and> cell_y c = cell_y b)"

definition outsideAllowedRegion :: "Direction \<Rightarrow> Cell \<Rightarrow> bool" where
  "outsideAllowedRegion direction c =
     (if direction = Dir_x then \<not> (- Block_WIDTH < cell_x c \<and> cell_x c < CANVAS_WIDTH)
      else \<not> cell_y c < CANVAS_HEIGHT)"

definition outsideClaimedRegion :: "Direction \<Rightarrow> Cell \<Rightarrow> bool" where
  "outsideClaimedRegion direction c =
     (if direction = Dir_x then \<not> (- Block_WIDTH \<le> cell_x c \<and> cell_x c < CANVAS_WIDTH)
      else \<not> cell_y c < CANVAS_HEIGHT)"




subsection \<open>Rotation\<close>

definition passesChecks :: "State \<Rightarrow> Cell list \<Rightarrow> bool" where
  "passesChecks s cs =
     (\<forall>c\<in>set cs. \<not> occupied s c \<and> \<not> outsideAllowedRegion Dir_x c
                   \<and> \<not> outsideAllowedRegion Dir_y c)"

definition kickCell :: "int \<times> int \<Rightarrow> Cell \<Rightarrow> Cell" where
  "kickCell kick c =
     c\<lparr>cell_x := cell_x c + fst kick * Block_WIDTH, cell_y := cell_y c - snd kick * Block_HEIGHT\<rparr>"

definition naiveRotation :: "Tetro \<Rightarrow> Cell \<Rightarrow> nat \<Rightarrow> Cell list" where
  "naiveRotation cb pivot next =
     (let table = TetroStartPosMap (shape cb);
          previousPivot = table ! rotation cb ! 1
      in map (\<lambda>(c, entry).
                createBlock (cell_x pivot + (fst entry - fst previousPivot) * Block_WIDTH)
                            (cell_y pivot + (snd entry - snd previousPivot) * Block_HEIGHT)
                            (cell_id c) (cell_color c))
             (zip (cells cb) (table ! next)))"

definition rotatedTo :: "State \<Rightarrow> Tetro \<Rightarrow> nat \<Rightarrow> Cell list \<Rightarrow> State" where
  "rotatedTo s cb next cs =
     s\<lparr>currentBlock := Some (cb\<lparr>rotation := next, cells := cs, originBlock := idx cs 1\<rparr>)\<rparr>"

definition Rotate_spec :: "State \<Rightarrow> State" where
  "Rotate_spec s =
     (case currentBlock s of
        None \<Rightarrow> s
      | Some cb \<Rightarrow>
          (case originBlock cb of
             None \<Rightarrow> s
           | Some pivot \<Rightarrow>
               let next = (rotation cb + 1) mod length (TetroStartPosMap (shape cb));
                   naive = naiveRotation cb pivot next
               in if passesChecks s naive then rotatedTo s cb next naive
                  else
                    (case find (\<lambda>kick. passesChecks s (map (kickCell kick) naive))
                            (PieceWallKickMap (shape cb) ! next) of
                       None \<Rightarrow> s
                     | Some kick \<Rightarrow> rotatedTo s cb next (map (kickCell kick) naive))))"

definition wellFormedTetro :: "Tetro \<Rightarrow> bool" where
  "wellFormedTetro cb =
     (length (cells cb) = 4 \<and> rotation cb < length (TetroStartPosMap (shape cb))
      \<and> originBlock cb \<noteq> None)"


text \<open>The naively rotated cells of the current block.\<close>

definition naivelyRotated :: "State \<Rightarrow> Cell list" where
  "naivelyRotated s =
     (case currentBlock s of
        None \<Rightarrow> []
      | Some cb \<Rightarrow>
          (case originBlock cb of
             None \<Rightarrow> []
           | Some pivot \<Rightarrow>
               naiveRotation cb pivot
                 ((rotation cb + 1) mod length (TetroStartPosMap (shape cb)))))"

definition wellFormedCurrent :: "State \<Rightarrow> bool" where
  "wellFormedCurrent s =
     (case currentBlock s of None \<Rightarrow> False | Some cb \<Rightarrow> wellFormedTetro cb)"

subsection \<open>Well-formed snapshots\<close>

text \<open>
  A seed is valid when it lies in \<open>[0, 2^31 - 1)\<close>, where \<^verbatim>\<open>RNG.scale\<close> maps it to a shape
  index. A snapshot is well formed
  when its seeds are valid, its current block has four cells, a rotation index of its
  shape and a pivot, and a current block comes with a preview and a four-cell ghost.
  \<open>createdTetro\<close> names the piece that \<^verbatim>\<open>createTetrominoes\<close> returns.
\<close>

definition validSeed :: "int \<Rightarrow> bool" where
  "validSeed sd = (0 \<le> sd \<and> sd < RNG_m - 1)"

definition wellFormedState :: "State \<Rightarrow> bool" where
  "wellFormedState s =
     (validSeed (seed s)
      \<and> (case currentBlock s of
            None \<Rightarrow> nextBlock s = None
          | Some cb \<Rightarrow>
              wellFormedTetro cb \<and> validSeed (tetro_seed cb)
              \<and> (case nextBlock s of None \<Rightarrow> False | Some nb \<Rightarrow> validSeed (tetro_seed nb))
              \<and> (case ghostBlock s of None \<Rightarrow> False | Some g \<Rightarrow> length (cells g) = 4))
      \<and> (case heldBlock s of None \<Rightarrow> True | Some hb \<Rightarrow> validSeed (tetro_seed hb)))"

definition createdTetro :: "int \<Rightarrow> int \<Rightarrow> nat \<Rightarrow> int \<Rightarrow> bool \<Rightarrow> State \<Rightarrow> Tetro" where
  "createdTetro px py n sd isPreview st = projr (Tick_createTetrominoes px py n sd isPreview st)"

subsection \<open>Sample snapshots\<close>

text \<open>
  Two initial snapshots, their seeds the hashes of two clock readings: the first piece
  of \<open>gameStart\<close> is an I, that of \<open>gameStartT\<close> a T. Then a board whose bottom row is
  full, the collided I piece lying in it, after nine line clears; an I piece moved flush
  to the left wall; an upright I piece at the left wall; the snapshot after the first
  tick; a snapshot with a live block and a piece in the hold slot; a snapshot whose
  block was held in and has come down to the floor; a T piece settled on the floor in
  rotation 1.
\<close>

definition gameStart :: State where
  "gameStart = initialState (initialSeed 1700000000022)"

definition gameStartT :: State where
  "gameStartT = initialState (initialSeed 1700000000001)"

definition fullRowState :: State where
  "fullRowState =
     (initialState 0)
       \<lparr>currentBlock :=
          Some \<lparr>cells = map (\<lambda>i. createBlock (int i * Block_WIDTH) 380
                                 (''block '' @ string_of_nat i) ''cyan'') [0..<4],
                originBlock = Some (createBlock 20 380 ''block 1'' ''cyan''),
                collided = True, rotation = 0, shape = Shape_I, tetro_seed = 0,
                blockStartCount = 0\<rparr>,
        blocks := map (\<lambda>i. createBlock (int i * Block_WIDTH) 380
                               (''block '' @ string_of_nat i) ''cyan'') [0..<10],
        lineClears := 9, points := 900, highscore := 900\<rparr>"


definition uprightLeftWallState :: State where
  "uprightLeftWallState =
     projr (run gameStart ([Tick 0, Rotate] @ replicate 5 (Move Dir_x (- Block_WIDTH))))"




definition settledActions :: "Action list" where
  "settledActions = [Tick 0, Rotate] @ replicate 17 (Move Dir_y Block_HEIGHT) @ [Collision]"

definition settledState :: State where
  "settledState = projr (run gameStartT settledActions)"

section \<open>Properties\<close>

lemmas Viewport_defs =
  CANVAS_WIDTH_def CANVAS_HEIGHT_def PREVIEW_WIDTH_def PREVIEW_HEIGHT_def
  GRID_WIDTH_def GRID_HEIGHT_def Block_WIDTH_def Block_HEIGHT_def

subsection \<open>Lists\<close>

lemma length_filter_pos_iff: "(0 < length (filter P xs)) = (\<exists>x\<in>set xs. P x)"
  by (simp add: filter_empty_conv)

lemma length_filter_neq_iff: "(length (filter P xs) \<noteq> length xs) = (\<exists>x\<in>set xs. \<not> P x)"
proof (cases "\<forall>x\<in>set xs. P x")
  case True
  then have "filter P xs = xs" by (simp add: filter_id_conv)
  with True show ?thesis by simp
next
  case False
  then obtain x where "x \<in> set xs" "\<not> P x" by blast
  then have "length (filter P xs) < length xs" by (rule length_filter_less)
  with False show ?thesis by simp
qed

lemma dedup_foldl:
  assumes "distinct (map f acc)"
  shows "distinct (map f (foldl (\<lambda>acc c. if 0 < length (filter (\<lambda>d. f d = f c) acc) then acc else acc @ [c]) acc xs))
       \<and> f ` set (foldl (\<lambda>acc c. if 0 < length (filter (\<lambda>d. f d = f c) acc) then acc else acc @ [c]) acc xs) = f ` set acc \<union> f ` set xs
       \<and> set (foldl (\<lambda>acc c. if 0 < length (filter (\<lambda>d. f d = f c) acc) then acc else acc @ [c]) acc xs) \<subseteq> set acc \<union> set xs"
  using assms
proof (induction xs arbitrary: acc)
  case Nil
  then show ?case by simp
next
  case (Cons a xs)
  show ?case
  proof (cases "\<exists>d\<in>set acc. f d = f a")
    case True
    then have pos: "0 < length (filter (\<lambda>d. f d = f a) acc)"
      by (simp only: length_filter_pos_iff)
    from True obtain d where d: "d \<in> set acc" "f d = f a" by blast
    have mem: "f a \<in> f ` set acc"
      using image_eqI[of "f a" f d "set acc"] d by simp
    from Cons.IH[OF Cons.prems] mem show ?thesis
      by (simp only: foldl_Cons pos if_True list.set image_insert) blast
  next
    case False
    then have z: "\<not> 0 < length (filter (\<lambda>d. f d = f a) acc)"
      by (simp add: filter_empty_conv)
    from False Cons.prems have "distinct (map f (acc @ [a]))" by auto
    from Cons.IH[OF this] show ?thesis
      by (simp only: foldl_Cons z if_False list.set image_insert set_append image_Un) auto
  qed
qed

lemma length_filter_disj:
  "(\<And>x. \<not> (P x \<and> Q x)) \<Longrightarrow> length (filter (\<lambda>x. P x \<or> Q x) xs) = length (filter P xs) + length (filter Q xs)"
  by (induction xs) auto

lemma length_filter_rows:
  assumes "distinct ys" and "\<And>r. r \<in> set ys \<Longrightarrow> length (filter (\<lambda>b. f b = r) xs) = n"
  shows "length (filter (\<lambda>b. f b \<in> set ys) xs) = n * length ys"
  using assms
proof (induction ys)
  case Nil
  then show ?case by simp
next
  case (Cons r ys)
  have "length (filter (\<lambda>b. f b = r \<or> f b \<in> set ys) xs)
        = length (filter (\<lambda>b. f b = r) xs) + length (filter (\<lambda>b. f b \<in> set ys) xs)"
    using Cons.prems(1) by (intro length_filter_disj) auto
  with Cons show ?case by simp
qed


lemma filter_head_find:
  "(case filter P xs of [] \<Rightarrow> a | k # ks \<Rightarrow> g k) = (case find P xs of None \<Rightarrow> a | Some k \<Rightarrow> g k)"
  by (induction xs) auto

lemma sum_case_projr:
  assumes "case r of Inl e \<Rightarrow> False | Inr s \<Rightarrow> P s"
  shows "r = Inr (projr r) \<and> P (projr r)"
  using assms by (cases r) simp_all


subsection \<open>The random number generator\<close>

lemma RNG_scale_div [code]: "RNG_scale h = (7 * h) div (RNG_m - 1)"
proof -
  have "(real_of_int h / real_of_int (RNG_m - 1)) * 7
        = real_of_int (7 * h) / real_of_int (RNG_m - 1)"
    by simp
  then show ?thesis
    unfolding RNG_scale_def by (simp only: floor_divide_of_int_eq)
qed

lemma RNG_scale_range:
  assumes "0 \<le> h" and "h < RNG_m - 1"
  shows "0 \<le> RNG_scale h \<and> RNG_scale h < 7"
proof -
  have "0 \<le> (7 * h) div 2147483647" using assms(1) by simp
  moreover have "(7 * h) div 2147483647 < 7"
    using assms(2) by (simp add: RNG_m_def div_less_iff_less_mult)
  ultimately show ?thesis by (simp add: RNG_scale_div RNG_m_def)
qed

lemma RNG_hash_exact:
  assumes "0 \<le> sd" and "RNG_a * sd + RNG_c < 2 ^ 53"
  shows "RNG_hash sd = (RNG_a * sd + RNG_c) mod RNG_m"
proof -
  have nn: "0 \<le> RNG_a * sd" using assms(1) by (simp add: RNG_a_def)
  with assms(2) have small: "\<bar>RNG_a * sd\<bar> < 2 ^ 53" by (simp add: RNG_c_def)
  then have p: "to_double (RNG_a * sd) = RNG_a * sd" by (simp add: to_double_def Let_def)
  from nn assms(2) have "\<bar>RNG_a * sd + RNG_c\<bar> < 2 ^ 53" by (simp add: RNG_c_def)
  then have q: "to_double (RNG_a * sd + RNG_c) = RNG_a * sd + RNG_c"
    by (simp add: to_double_def Let_def)
  from nn have "0 < RNG_a * sd + RNG_c" by (simp add: RNG_c_def)
  then have "js_rem (RNG_a * sd + RNG_c) RNG_m = (RNG_a * sd + RNG_c) mod RNG_m"
    by (simp add: js_rem_def RNG_m_def)
  then show ?thesis by (simp only: RNG_hash_def p q)
qed

lemma RNG_hash_rounds:
  "RNG_hash 1406932606 = 654583808
   \<and> (RNG_a * 1406932606 + RNG_c) mod RNG_m = 654583775"
  by code_simp

lemma to_double_small: "\<bar>n\<bar> < 2 ^ 53 \<Longrightarrow> to_double n = n"
  by (simp add: to_double_def Let_def)

lemma to_double_large:
  assumes "2 ^ 53 \<le> n"
  shows "even (to_double n) \<and> 2 ^ 53 \<le> to_double n"
proof -
  have pos: "0 < n" using assms by simp
  from bitlen_bounds[OF pos] have up: "n < 2 ^ nat (bitlen n)" and lo: "2 ^ nat (bitlen n - 1) \<le> n"
    by simp_all
  have "(2::int) ^ 53 < 2 ^ nat (bitlen n)" using assms up by linarith
  then have "53 < nat (bitlen n)" by (rule power_less_imp_less_exp[rotated]) simp
  then obtain e where e: "nat (bitlen n) = 54 + e"
    using that[of "nat (bitlen n) - 54"] by simp
  define u :: int where "u = 2 ^ (nat (bitlen n) - 53)"
  have u: "u = 2 * 2 ^ e" by (simp add: u_def e)
  have upos: "0 < u" by (simp add: u)
  have "nat (bitlen n - 1) = 53 + e" using e by linarith
  with lo have "2 ^ 52 * u \<le> n" by (simp add: u power_add)
  have q: "2 ^ 52 \<le> n div u"
  proof -
    have "(2 ^ 52 * u) div u \<le> n div u"
      using \<open>2 ^ 52 * u \<le> n\<close> upos by (intro zdiv_mono1) simp_all
    then show ?thesis using upos by simp
  qed
  define q' where "q' = (if 2 * (n mod u) > u \<or> (2 * (n mod u) = u \<and> odd (n div u)) then n div u + 1 else n div u)"
  have q': "2 ^ 52 \<le> q'" using q by (simp add: q'_def)
  have abs: "\<bar>n\<bar> = n" and sg: "sgn n = 1" and big: "\<not> \<bar>n\<bar> < 2 ^ 53"
    using assms pos by simp_all
  have td: "to_double n = q' * u"
    unfolding to_double_def Let_def abs sg u_def q'_def using big by (simp only: if_False mult_1 abs)
  have "2 ^ 52 * u \<le> q' * u" using q' upos by simp
  moreover have "(2::int) ^ 53 \<le> 2 ^ 52 * u" using u by simp
  ultimately have "2 ^ 53 \<le> q' * u" by linarith
  moreover have "even (q' * u)" by (simp add: u)
  ultimately show ?thesis by (simp add: td)
qed

lemma congruence_top_value:
  assumes "0 \<le> sd" and "1103515245 * sd + 12345 < (9007199254740992::int)"
  shows "(1103515245 * sd + 12345) mod 2147483648 \<noteq> 2147483647"
proof
  assume top: "(1103515245 * sd + 12345) mod 2147483648 = 2147483647"
  have small: "sd < 8162279" using assms(2) by simp
  define D where "D = (1103515245 * sd + 12345) div 2147483648"
  have "2147483648 * D + (1103515245 * sd + 12345) mod 2147483648 = 1103515245 * sd + 12345"
    unfolding D_def by (rule mult_div_mod_eq)
  then have "2147483648 * D + 2147483647 = 1103515245 * sd + 12345"
    by (simp only: top)
  then have "1103515245 * sd + 12346 = 2147483648 * (D + 1)" by simp
  then have "2147483648 dvd 1103515245 * sd + 12346" by (simp only: dvd_triv_left)
  then have "2147483648 dvd 1857678181 * (1103515245 * sd + 12346)" by (rule dvd_mult)
  moreover have "1857678181 * (1103515245 * sd + 12346)
      = (sd - 230538014) + 2147483648 * (954594553 * sd + 10680)"
    by simp
  ultimately have "2147483648 dvd (sd - 230538014) + 2147483648 * (954594553 * sd + 10680)"
    by (simp only:)
  then have "2147483648 dvd sd - 230538014"
    by (metis dvd_add_left_iff dvd_triv_left)
  then have "2147483648 dvd 230538014 - sd" by (simp only: dvd_diff_commute)
  moreover have "0 < 230538014 - sd" using small by simp
  moreover have "230538014 - sd < 2147483648" using assms(1) by simp
  ultimately show False by (meson zdvd_not_zless)
qed

lemma RNG_hash_range:
  assumes "0 \<le> sd"
  shows "0 \<le> RNG_hash sd \<and> RNG_hash sd < RNG_m - 1"
proof -
  define p where "p = 1103515245 * sd"
  define ts where "ts = to_double (to_double p + 12345)"
  have p0: "0 \<le> p" using assms by (simp add: p_def)
  have ts_cases: "(p + 12345 < 9007199254740992 \<and> ts = p + 12345)
      \<or> (even ts \<and> 9007199254740992 \<le> ts)"
  proof (cases "p < 9007199254740992")
    case True
    with p0 have tp: "to_double p = p" by (intro to_double_small) simp
    show ?thesis
    proof (cases "p + 12345 < 9007199254740992")
      case True
      with p0 have "to_double (p + 12345) = p + 12345"
        by (intro to_double_small) simp
      with True show ?thesis by (simp only: ts_def tp simp_thms)
    next
      case False
      then have "2 ^ 53 \<le> p + 12345" by simp
      from to_double_large[OF this] show ?thesis by (simp add: ts_def tp)
    qed
  next
    case False
    then have "2 ^ 53 \<le> p" by simp
    from to_double_large[OF this] have "2 ^ 53 \<le> to_double p + 12345" by simp
    from to_double_large[OF this] show ?thesis by (simp add: ts_def)
  qed
  have ts0: "0 < ts"
  proof (cases "p + 12345 < 9007199254740992 \<and> ts = p + 12345")
    case True
    with p0 show ?thesis by simp
  next
    case False
    with ts_cases have "9007199254740992 \<le> ts" by blast
    then show ?thesis by simp
  qed
  then have "js_rem ts 2147483648 = ts mod 2147483648"
    by (simp add: js_rem_def)
  then have h: "RNG_hash sd = ts mod 2147483648"
    by (simp only: RNG_hash_def ts_def p_def RNG_m_def RNG_a_def RNG_c_def)
  have "ts mod 2147483648 \<noteq> 2147483647"
  proof (cases "p + 12345 < 9007199254740992 \<and> ts = p + 12345")
    case True
    then have "1103515245 * sd + 12345 < 9007199254740992" by (simp add: p_def)
    from congruence_top_value[OF assms this] True show ?thesis by (simp add: p_def)
  next
    case False
    with ts_cases have "even ts" by blast
    then have "even (ts mod 2147483648)" by (simp add: dvd_mod_iff)
    moreover have "odd (2147483647::int)" by simp
    ultimately show ?thesis by metis
  qed
  moreover have "0 \<le> ts mod 2147483648" by simp
  moreover have "ts mod 2147483648 < 2147483648" by simp
  ultimately show ?thesis by (simp add: h RNG_m_def)
qed


lemma validSeed_hash: "0 \<le> sd \<Longrightarrow> validSeed (RNG_hash sd)"
  using RNG_hash_range[of sd] by (simp add: validSeed_def)


text \<open>
  Claim C4. \<open>hash\<close> is the linear congruential step and \<open>scale\<close> maps every value of
  \<open>[0, 2^31)\<close> to one of the seven shape indices. The code does not: at the value
  \<open>2^31 - 1\<close> \<^verbatim>\<open>RNG.scale\<close> returns 7, which is no index of \<^verbatim>\<open>TetroShapes\<close>, and a piece
  cannot be created from that seed. (\<open>RNG_scale_range\<close> covers the values below
  \<open>2^31 - 1\<close>; \<open>RNG_hash_exact\<close> and \<open>RNG_hash_rounds\<close> show where the doubles of
  \<^verbatim>\<open>RNG.hash\<close> agree with the congruence and where they round away from it.)
\<close>

theorem RNG_scale_top_value:
  "RNG_scale (RNG_m - 1) = 7
   \<and> idx_int TetroShapes (RNG_scale (RNG_m - 1)) = None
   \<and> Tick_createTetrominoes 80 20 0 (RNG_m - 1) False (initialState 0) = Inl TypeError"
  by (simp add: RNG_scale_def RNG_m_def idx_int_def TetroShapes_def Tick_createTetrominoes_def)

subsection \<open>Bounds and moves\<close>



lemma hasBlocksAround_iff:
  "hasBlocksAround cs s offset direction = (\<exists>c\<in>set cs. occupied s (shiftCell direction offset c))"
  unfolding hasBlocksAround_def length_filter_neq_iff
  by (cases direction) (auto simp: occupied_def shiftCell_def Let_def filter_empty_conv)

lemma hasBoundaryAround_iff:
  "hasBoundaryAround cs s offset direction
   = (\<exists>c\<in>set cs. outsideAllowedRegion direction (shiftCell direction offset c))"
  unfolding hasBoundaryAround_def length_filter_neq_iff
  by (cases direction) (auto simp: outsideAllowedRegion_def shiftCell_def)


text \<open>
  Claim C8, as amended. The out-of-bounds predicate is true exactly when some shifted
  cell lies outside the allowed region, and for the x axis that region is the open
  interval \<open>(-cellWidth, canvasWidth)\<close>; for the y axis it is \<open>y < canvasHeight\<close>.
\<close>

theorem outOfBounds_open_interval:
  "hasBoundaryAround cs s offset direction
   = (\<exists>c\<in>set cs. outsideAllowedRegion direction (shiftCell direction offset c))"
  unfolding hasBoundaryAround_def length_filter_neq_iff
  by (cases direction) (auto simp: outsideAllowedRegion_def shiftCell_def)


theorem outOfBounds_open_interval_witness:
  "hasBoundaryAround [createBlock 0 20 ''block 0'' ''cyan''] (initialState 0) (- Block_WIDTH) Dir_x
   \<and> \<not> hasBoundaryAround [createBlock 0 20 ''block 0'' ''cyan''] (initialState 0) Block_WIDTH Dir_x"
  unfolding outOfBounds_open_interval
  by (simp add: outsideAllowedRegion_def shiftCell_def createBlock_def Viewport_defs)

text \<open>
  The claim as stated, with the half-open interval \<open>[-cellWidth, canvasWidth)\<close>, fails:
  a cell at \<open>x = 0\<close> shifted by \<open>-cellWidth\<close> lands on \<open>-cellWidth\<close>, inside the claimed
  interval, and the predicate is true all the same.
\<close>

theorem outOfBounds_counterexample:
  "hasBoundaryAround [createBlock 0 20 ''block 0'' ''cyan''] (initialState 0) (- Block_WIDTH) Dir_x
   \<and> \<not> outsideClaimedRegion Dir_x (shiftCell Dir_x (- Block_WIDTH) (createBlock 0 20 ''block 0'' ''cyan''))"
  by (simp add: hasBoundaryAround_def outsideClaimedRegion_def shiftCell_def createBlock_def Viewport_defs)







subsection \<open>Rotation\<close>

lemma TetroStartPosMap_length:
  "length (TetroStartPosMap sh) = (if sh = Shape_O then 1 else 4)"
  by (cases sh) simp_all

lemma PieceWallKickMap_length: "length (PieceWallKickMap sh) = length (TetroStartPosMap sh)"
  by (cases sh) (simp_all add: IWallKickData_def JLTSZWallKickData_def OWallKickData_def)

lemma TetroStartPosMap_entry_length:
  "r < length (TetroStartPosMap sh) \<Longrightarrow> length (TetroStartPosMap sh ! r) = 4"
  by (cases sh) (auto simp: nth_Cons split: nat.splits)

lemma shiftCell_zero: "shiftCell direction 0 c = c"
  by (simp add: shiftCell_def)

lemma checkAllCollision_iff: "checkAllCollision s cs = (\<not> passesChecks s cs)"
  by (auto simp: checkAllCollision_def passesChecks_def hasBlocksAround_iff hasBoundaryAround_iff
        shiftCell_zero)

lemma offsetBlock_kickCell: "offsetBlock kick cs = map (kickCell kick) cs"
  by (simp add: offsetBlock_def kickCell_def)

lemma blockAfterRotation_naive:
  assumes "length (cells cb) = 4" and "originBlock cb = Some pivot"
    and "rotation cb < length (TetroStartPosMap (shape cb))"
    and "next < length (TetroStartPosMap (shape cb))"
  shows "blockAfterRotation cb (TetroStartPosMap (shape cb) ! next)
           (0 - fst (TetroStartPosMap (shape cb) ! rotation cb ! 1))
           (0 - snd (TetroStartPosMap (shape cb) ! rotation cb ! 1))
         = Inr (naiveRotation cb pivot next)"
proof -
  from assms(1) have ne: "cells cb \<noteq> []" by auto
  have len: "length (TetroStartPosMap (shape cb) ! next) = 4"
    using assms(4) by (rule TetroStartPosMap_entry_length)
  show ?thesis
    using ne len assms(1,2)
    by (simp add: blockAfterRotation_def naiveRotation_def Let_def split_def)
qed


lemma Rotate_perform_refines:
  assumes "wellFormedCurrent s"
  shows "Rotate_perform s = Inr (Rotate_spec s)"
proof -
  from assms obtain cb where a: "currentBlock s = Some cb \<and> wellFormedTetro cb"
    by (auto simp: wellFormedCurrent_def split: option.splits)
  let ?table = "TetroStartPosMap (shape cb)"
  let ?nx = "(rotation cb + 1) mod length ?table"
  from a have cur: "currentBlock s = Some cb" by simp
  from a obtain pivot where pivot: "originBlock cb = Some pivot"
    by (auto simp: wellFormedTetro_def)
  from a have len4: "length (cells cb) = 4" and rot: "rotation cb < length ?table"
    by (auto simp: wellFormedTetro_def)
  have "0 < length ?table" by (simp add: TetroStartPosMap_length)
  then have nxt: "?nx < length ?table" by simp
  have i1: "idx ?table ?nx = Some (?table ! ?nx)" using nxt by (simp only: idx_def if_True)
  have i2: "idx ?table (rotation cb) = Some (?table ! rotation cb)"
    using rot by (simp only: idx_def if_True)
  have "length (?table ! rotation cb) = 4"
    using rot by (rule TetroStartPosMap_entry_length)
  then have i3: "idx (?table ! rotation cb) 1 = Some (?table ! rotation cb ! 1)"
    by (simp add: idx_def)
  have "?nx < length (PieceWallKickMap (shape cb))"
    using nxt by (simp only: PieceWallKickMap_length)
  then have i4: "idx (PieceWallKickMap (shape cb)) ?nx = Some (PieceWallKickMap (shape cb) ! ?nx)"
    by (simp only: idx_def if_True)
  let ?naive = "naiveRotation cb pivot ?nx"
  have naive: "blockAfterRotation cb (?table ! ?nx)
           (0 - fst (?table ! rotation cb ! 1)) (0 - snd (?table ! rotation cb ! 1))
         = Inr ?naive"
    using len4 pivot rot nxt by (rule blockAfterRotation_naive)
  have P: "Rotate_perform s =
      (if \<not> checkAllCollision s ?naive then Inr (rotatedTo s cb ?nx ?naive)
       else (case filter (\<lambda>kick. \<not> checkAllCollision s (offsetBlock kick ?naive))
                    (PieceWallKickMap (shape cb) ! ?nx) of
               [] \<Rightarrow> Inr s
             | k # ks \<Rightarrow> Inr (rotatedTo s cb ?nx (offsetBlock k ?naive))))"
    unfolding Rotate_perform_def rotatedTo_def
    by (simp only: cur option.case Let_def i1 i2 i3 i4 naive sum.case)
  have S: "Rotate_spec s =
      (if passesChecks s ?naive then rotatedTo s cb ?nx ?naive
       else (case find (\<lambda>kick. passesChecks s (map (kickCell kick) ?naive))
                    (PieceWallKickMap (shape cb) ! ?nx) of
               None \<Rightarrow> s
             | Some kick \<Rightarrow> rotatedTo s cb ?nx (map (kickCell kick) ?naive)))"
    unfolding Rotate_spec_def by (simp only: cur pivot option.case Let_def)
  show ?thesis
    unfolding P S checkAllCollision_iff offsetBlock_kickCell filter_head_find not_not
    by (simp split: option.splits)
qed

subsection \<open>Well-formed snapshots are kept\<close>

lemma TetroStartPosMap_spawn:
  "\<exists>e0 e2 e3. TetroStartPosMap sh ! 0 = [e0, (0, 0), e2, e3]"
  by (cases sh) simp_all

lemma Tick_createTetrominoes_valid:
  assumes "validSeed sd"
  shows "\<exists>t. Tick_createTetrominoes px py n sd isPreview st = Inr t
            \<and> wellFormedTetro t \<and> tetro_seed t = sd \<and> \<not> collided t"
proof -
  from assms have "0 \<le> RNG_scale sd \<and> RNG_scale sd < 7"
    by (intro RNG_scale_range) (simp_all add: validSeed_def)
  then obtain sh where sh: "idx_int TetroShapes (RNG_scale sd) = Some sh"
    by (simp add: idx_int_def TetroShapes_def)
  obtain e0 e2 e3 where m: "TetroStartPosMap sh ! 0 = [e0, (0, 0), e2, e3]"
    using TetroStartPosMap_spawn by blast
  have i0: "idx (TetroStartPosMap sh) 0 = Some [e0, (0, 0), e2, e3]"
    using m by (simp add: idx_def TetroStartPosMap_length)
  have r0: "0 < length (TetroStartPosMap sh)" by (simp add: TetroStartPosMap_length)
  show ?thesis
    using r0
    by (simp add: Tick_createTetrominoes_def sh i0 Let_def wellFormedTetro_def createBlock_def
          upt_rec split_def)
qed


lemma boundaryX_length: "length (boundaryX cs s offset) = length cs"
  by (simp add: boundaryX_def Let_def split: option.splits)

lemma boundaryY_length: "length (boundaryY cs s offset) = length cs"
  by (simp add: boundaryY_def Let_def split: option.splits)

lemma Move_wellFormed:
  assumes "wellFormedState s"
  shows "\<exists>s'. Move_perform direction offset s = Inr s' \<and> wellFormedState s'"
proof (cases "currentBlock s")
  case None
  with assms show ?thesis by (simp add: Move_perform_def)
next
  case (Some cb)
  with assms show ?thesis
    by (auto simp: Move_perform_def wellFormedState_def wellFormedTetro_def Let_def idx_def
          boundaryX_length boundaryY_length)
qed

lemma Collision_wellFormed:
  assumes "wellFormedState s" and "currentBlock s \<noteq> None"
  shows "\<exists>s'. Collision_perform s = Inr s' \<and> wellFormedState s'"
proof -
  from assms(2) obtain cb where cb: "currentBlock s = Some cb" by blast
  from assms(1) have "0 \<le> seed s" by (simp add: wellFormedState_def validSeed_def)
  then have "validSeed (RNG_hash (seed s))" by (rule validSeed_hash)
  with assms(1) cb show ?thesis
    by (simp add: Collision_perform_def collisionDetection_def Let_def wellFormedState_def
          wellFormedTetro_def)
qed

lemma Drop_wellFormed:
  assumes "wellFormedState s"
  shows "\<exists>s'. Drop_perform s = Inr s' \<and> wellFormedState s'"
proof (cases "currentBlock s")
  case None
  with assms show ?thesis by (simp add: Drop_perform_def)
next
  case (Some cb)
  from assms have "0 \<le> seed s" by (simp add: wellFormedState_def validSeed_def)
  then have v: "validSeed (RNG_hash (seed s))" by (rule validSeed_hash)
  from assms Some obtain g where g: "ghostBlock s = Some g" "length (cells g) = 4"
    and len: "length (cells cb) = 4"
    by (auto simp: wellFormedState_def wellFormedTetro_def split: option.splits)
  then have d: "droppedCell cb s
      = Inr (map (\<lambda>(cell, gc). cell\<lparr>cell_x := cell_x gc, cell_y := cell_y gc\<rparr>)
               (zip (cells cb) (cells g)))"
    by (auto simp: droppedCell_def)
  show ?thesis
  proof (cases "collided cb")
    case True
    with assms Some show ?thesis by (simp add: Drop_perform_def)
  next
    case False
    with assms Some g len v show ?thesis
      by (simp add: Drop_perform_def d wellFormedState_def wellFormedTetro_def)
  qed
qed

lemma Hold_wellFormed:
  assumes "wellFormedState s"
  shows "\<exists>s'. Hold_perform s = Inr s' \<and> wellFormedState s'"
proof (cases "currentBlock s")
  case None
  with assms show ?thesis by (simp add: Hold_perform_def)
next
  case (Some cb)
  show ?thesis
  proof (cases "collided cb \<or> \<not> canHoldAgain s")
    case True
    with assms Some show ?thesis by (simp add: Hold_perform_def)
  next
    case False
    from assms Some obtain nb g where nb: "nextBlock s = Some nb" "validSeed (tetro_seed nb)"
      and g: "ghostBlock s = Some g" "length (cells g) = 4"
      and vcb: "validSeed (tetro_seed cb)" and vs: "validSeed (seed s)"
      by (auto simp: wellFormedState_def split: option.splits)
    from vs have s0: "0 \<le> seed s" by (simp add: validSeed_def)
    then have vh: "validSeed (RNG_hash (seed s))" by (rule validSeed_hash)
    then have "0 \<le> RNG_hash (seed s)" by (simp add: validSeed_def)
    then have vhh: "validSeed (RNG_hash (RNG_hash (seed s)))" by (rule validSeed_hash)
    obtain held where held: "Tick_createTetrominoes (PREVIEW_WIDTH div 2) (PREVIEW_HEIGHT div 2)
          (blockStartCount cb) (tetro_seed cb) True s = Inr held"
        "validSeed (tetro_seed held)"
      using Tick_createTetrominoes_valid[OF vcb] vcb by metis
    show ?thesis
    proof (cases "heldBlock s")
      case None
      obtain cur where cur: "Tick_createTetrominoes (CANVAS_WIDTH div 2 - Block_WIDTH) Block_HEIGHT
            (blockStartCount nb) (tetro_seed nb) False s = Inr cur"
          "wellFormedTetro cur" "validSeed (tetro_seed cur)"
        using Tick_createTetrominoes_valid[OF nb(2)] nb(2) by metis
      obtain nx where nx: "Tick_createTetrominoes (PREVIEW_WIDTH div 2) (PREVIEW_HEIGHT div 2)
            (blockCount s + 4) (RNG_hash (RNG_hash (seed s))) True s = Inr nx"
          "validSeed (tetro_seed nx)"
        using Tick_createTetrominoes_valid[OF vhh] vhh by metis
      from False Some None nb g cur nx held vh show ?thesis
        by (simp add: Hold_perform_def wellFormedState_def)
    next
      case (Some hb)
      with assms have vhb: "validSeed (tetro_seed hb)" by (simp add: wellFormedState_def)
      obtain cur where cur: "Tick_createTetrominoes (CANVAS_WIDTH div 2 - Block_WIDTH) Block_HEIGHT
            (blockStartCount hb) (tetro_seed hb) False s = Inr cur"
          "wellFormedTetro cur" "validSeed (tetro_seed cur)"
        using Tick_createTetrominoes_valid[OF vhb] vhb by metis
      from False \<open>currentBlock s = Some cb\<close> Some nb g cur held vs show ?thesis
        by (simp add: Hold_perform_def wellFormedState_def)
    qed
  qed
qed


lemma Tick_createTetrominoes_created:
  assumes "validSeed sd"
  shows "Tick_createTetrominoes px py n sd isPreview st = Inr (createdTetro px py n sd isPreview st)"
    and "wellFormedTetro (createdTetro px py n sd isPreview st)"
    and "tetro_seed (createdTetro px py n sd isPreview st) = sd"
    and "\<not> collided (createdTetro px py n sd isPreview st)"
  using Tick_createTetrominoes_valid[OF assms, of px py n isPreview st]
  by (auto simp: createdTetro_def)

lemma lineClearCheck_frame:
  "currentBlock (lineClearCheck s) = currentBlock s"
  "nextBlock (lineClearCheck s) = nextBlock s"
  "heldBlock (lineClearCheck s) = heldBlock s"
  "ghostBlock (lineClearCheck s) = ghostBlock s"
  "seed (lineClearCheck s) = seed s"
  "blockCount (lineClearCheck s) = blockCount s"
  by (simp_all add: lineClearCheck_def Let_def split: option.splits)

lemma mapGhostTetro_Inr:
  "length cs \<le> length (cells block) \<Longrightarrow>
     mapGhostTetro cs block offset
     = Inr (map (\<lambda>(cell, bc).
                  cell\<lparr>cell_x := cell_x bc, cell_y := cell_y bc + offset, cell_color := ''grey''\<rparr>)
                 (zip cs (cells block)))"
  by (simp add: mapGhostTetro_def)

lemma length4_cases:
  assumes "length xs = 4"
  obtains a b c d where "xs = [a, b, c, d]"
  using assms by (auto simp: length_Suc_conv numeral_eq_Suc)

lemma yOffset_Inr:
  assumes "cells block \<noteq> []"
  shows "\<exists>offset. yOffset state block = Inr offset"
  using assms by (simp add: yOffset_def ghostBlockYLocation_def Let_def split: list.splits)

lemma Tick_ghostBlock_Inr:
  assumes "validSeed (tetro_seed block)" and "length (cells block) = 4"
  shows "\<exists>g. Tick_ghostBlock s st block offset = Inr g \<and> length (cells g) = 4"
proof -
  let ?n = "case ghostBlock st of Some g \<Rightarrow> blockStartCount g | None \<Rightarrow> blockCount st + 4"
  note gt = Tick_createTetrominoes_created[OF assms(1), where px=0 and py=0 and isPreview=True
      and st=st and n="?n"]
  from gt(2) have l: "length (cells (createdTetro 0 0 ?n (tetro_seed block) True st)) = 4"
    by (simp add: wellFormedTetro_def)
  show ?thesis
    by (simp add: Tick_ghostBlock_def Let_def gt(1) mapGhostTetro_def l assms(2))
qed

lemma Tick_wellFormed:
  assumes "wellFormedState s"
  shows "\<exists>s'. Tick_perform time s = Inr s' \<and> wellFormedState s'"
proof -
  let ?st = "lineClearCheck s"
  let ?spawn = "Tick_createTetrominoes (CANVAS_WIDTH div 2 - Block_WIDTH) Block_HEIGHT
                    (blockCount ?st) (seed ?st) False ?st"
  let ?cnt = "case ghostBlock ?st of Some g \<Rightarrow> blockCount ?st + 4 | None \<Rightarrow> blockCount ?st + 8"
  let ?preview = "Tick_createTetrominoes (PREVIEW_WIDTH div 2) (PREVIEW_HEIGHT div 2)
                    ?cnt (RNG_hash (seed ?st)) True ?st"
  from assms have vs: "validSeed (seed ?st)"
    by (simp add: wellFormedState_def lineClearCheck_frame)
  then have "0 \<le> seed ?st" by (simp add: validSeed_def)
  then have vh: "validSeed (RNG_hash (seed ?st))" by (rule validSeed_hash)
  obtain block where blk: "(case currentBlock ?st of None \<Rightarrow> ?spawn
        | Some cb \<Rightarrow> if collided cb then ?spawn else Inr cb) = Inr block"
    and wfb: "wellFormedTetro block" and vb: "validSeed (tetro_seed block)"
  proof (cases "currentBlock s")
    case None
    with that[of "createdTetro (CANVAS_WIDTH div 2 - Block_WIDTH) Block_HEIGHT (blockCount ?st) (seed ?st) False ?st"]
      Tick_createTetrominoes_created[OF vs] vs
    show ?thesis by (simp add: lineClearCheck_frame)
  next
    case (Some cb)
    show ?thesis
    proof (cases "collided cb")
      case True
      with Some that[of "createdTetro (CANVAS_WIDTH div 2 - Block_WIDTH) Block_HEIGHT (blockCount ?st) (seed ?st) False ?st"]
        Tick_createTetrominoes_created[OF vs] vs
      show ?thesis by (simp add: lineClearCheck_frame)
    next
      case False
      with Some assms that[of cb] show ?thesis
        by (simp add: lineClearCheck_frame wellFormedState_def)
    qed
  qed
  obtain nb where nxt: "(case nextBlock ?st of None \<Rightarrow> ?preview
        | Some nb \<Rightarrow> (case currentBlock ?st of None \<Rightarrow> Inl TypeError
            | Some cb \<Rightarrow> if collided cb then ?preview else Inr nb)) = Inr nb"
    and vnb: "validSeed (tetro_seed nb)"
  proof (cases "currentBlock s")
    case None
    with assms have "nextBlock s = None" by (simp add: wellFormedState_def)
    with that[of "createdTetro (PREVIEW_WIDTH div 2) (PREVIEW_HEIGHT div 2) ?cnt (RNG_hash (seed ?st)) True ?st"]
      Tick_createTetrominoes_created[OF vh] vh
    show ?thesis by (simp add: lineClearCheck_frame)
  next
    case (Some cb)
    with assms obtain nb0 where nb0: "nextBlock s = Some nb0" "validSeed (tetro_seed nb0)"
      by (auto simp: wellFormedState_def split: option.splits)
    show ?thesis
    proof (cases "collided cb")
      case True
      with Some nb0 that[of "createdTetro (PREVIEW_WIDTH div 2) (PREVIEW_HEIGHT div 2) ?cnt (RNG_hash (seed ?st)) True ?st"]
        Tick_createTetrominoes_created[OF vh] vh
      show ?thesis by (simp add: lineClearCheck_frame)
    next
      case False
      with Some nb0 that[of nb0] show ?thesis by (simp add: lineClearCheck_frame)
    qed
  qed
  from wfb have len: "length (cells block) = 4" by (simp add: wellFormedTetro_def)
  then have "cells block \<noteq> []" by auto
  then obtain offset where off: "yOffset ?st block = Inr offset"
    using yOffset_Inr by blast
  obtain g where g: "Tick_ghostBlock s ?st block offset = Inr g" "length (cells g) = 4"
    using Tick_ghostBlock_Inr[OF vb len] by blast
  have held: "heldBlock ?st = heldBlock s" by (simp add: lineClearCheck_frame)
  have "Tick_perform time s
      = Inr (?st\<lparr>currentBlock := Some block, nextBlock := Some nb, ghostBlock := Some g,
                 blockCount := (case currentBlock ?st of None \<Rightarrow> ?cnt
                                | Some cb \<Rightarrow> if collided cb then ?cnt else blockCount ?st),
                 gameEnd := isBlockSpawningOnOtherBlocks ?st block\<rparr>)"
    unfolding Tick_perform_def Let_def by (simp only: blk off g(1) nxt sum.case)
  moreover have "wellFormedState (?st\<lparr>currentBlock := Some block, nextBlock := Some nb, ghostBlock := Some g,
                 blockCount := (case currentBlock ?st of None \<Rightarrow> ?cnt
                                | Some cb \<Rightarrow> if collided cb then ?cnt else blockCount ?st),
                 gameEnd := isBlockSpawningOnOtherBlocks ?st block\<rparr>)"
    using assms vs wfb vb vnb g(2) by (simp add: wellFormedState_def held)
  ultimately show ?thesis by blast
qed


lemma naiveRotation_length:
  assumes "length (cells cb) = 4" and "nx < length (TetroStartPosMap (shape cb))"
  shows "length (naiveRotation cb pivot nx) = 4"
  using assms TetroStartPosMap_entry_length[OF assms(2)]
  by (simp add: naiveRotation_def Let_def)

lemma Rotate_spec_wellFormed:
  assumes "wellFormedState s"
  shows "wellFormedState (Rotate_spec s)"
proof (cases "currentBlock s")
  case None
  with assms show ?thesis by (simp add: Rotate_spec_def)
next
  case (Some cb)
  with assms obtain pivot where pivot: "originBlock cb = Some pivot"
    and len: "length (cells cb) = 4"
    by (auto simp: wellFormedState_def wellFormedTetro_def)
  let ?nx = "(rotation cb + 1) mod length (TetroStartPosMap (shape cb))"
  have "0 < length (TetroStartPosMap (shape cb))" by (simp add: TetroStartPosMap_length)
  then have nx: "?nx < length (TetroStartPosMap (shape cb))" by simp
  have l: "length (naiveRotation cb pivot ?nx) = 4"
    using len nx by (rule naiveRotation_length)
  have w: "wellFormedState (rotatedTo s cb ?nx cs)" if "length cs = 4" for cs
    using assms Some that nx
    by (simp add: rotatedTo_def wellFormedState_def wellFormedTetro_def idx_def)
  from l have w1: "wellFormedState (rotatedTo s cb ?nx (naiveRotation cb pivot ?nx))" by (rule w)
  have w2: "wellFormedState (rotatedTo s cb ?nx (map (kickCell kick) (naiveRotation cb pivot ?nx)))"
    for kick
    using l by (intro w) simp
  show ?thesis
    unfolding Rotate_spec_def
    using assms w1 w2 by (simp only: Some pivot option.case Let_def split: if_splits option.splits) simp
qed

lemma Rotate_wellFormed:
  assumes "wellFormedState s"
  shows "\<exists>s'. Rotate_perform s = Inr s' \<and> wellFormedState s'"
proof (cases "currentBlock s")
  case None
  with assms show ?thesis by (simp add: Rotate_perform_def)
next
  case (Some cb)
  with assms have "wellFormedCurrent s" by (simp add: wellFormedCurrent_def wellFormedState_def)
  then have "Rotate_perform s = Inr (Rotate_spec s)" by (rule Rotate_perform_refines)
  with Rotate_spec_wellFormed[OF assms] show ?thesis by simp
qed

text \<open>
  Every transition is defined on a well-formed snapshot and returns a well-formed one,
  but for Collision on a snapshot that has no current block.
\<close>

lemma perform_wellFormed:
  assumes "wellFormedState s" and "a = Collision \<longrightarrow> currentBlock s \<noteq> None"
  shows "\<exists>s'. perform a s = Inr s' \<and> wellFormedState s'"
proof (cases a)
  case (Move direction offset)
  with Move_wellFormed[OF assms(1)] show ?thesis by simp
next
  case (Tick time)
  with Tick_wellFormed[OF assms(1)] show ?thesis by simp
next
  case Rotate
  with Rotate_wellFormed[OF assms(1)] show ?thesis by simp
next
  case Hold
  with Hold_wellFormed[OF assms(1)] show ?thesis by simp
next
  case Drop
  with Drop_wellFormed[OF assms(1)] show ?thesis by simp
next
  case Collision
  with Collision_wellFormed[OF assms(1)] assms(2) show ?thesis by simp
qed

lemma perform_Inr_wellFormed:
  assumes "wellFormedState s" and "perform a s = Inr s'"
  shows "wellFormedState s'"
proof (cases "a = Collision \<and> currentBlock s = None")
  case True
  with assms(2) show ?thesis by (simp add: Collision_perform_def collisionDetection_def)
next
  case False
  then have "a = Collision \<longrightarrow> currentBlock s \<noteq> None" by simp
  from perform_wellFormed[OF assms(1) this] assms(2) show ?thesis by auto
qed

lemma run_wellFormed:
  assumes "wellFormedState s" and "run s acts = Inr s'"
  shows "wellFormedState s'"
  using assms
proof (induction acts arbitrary: s)
  case Nil
  then show ?case by simp
next
  case (Cons a acts)
  from Cons.prems(2) obtain s1 where s1: "perform a s = Inr s1" "run s1 acts = Inr s'"
    by (auto split: sum.splits)
  from Cons.prems(1) s1(1) have "wellFormedState s1" by (rule perform_Inr_wellFormed)
  from Cons.IH[OF this s1(2)] show ?case .
qed

lemma initialState_wellFormed: "validSeed sd \<Longrightarrow> wellFormedState (initialState sd)"
  by (simp add: wellFormedState_def initialState_def)

lemma initialSeed_valid: "0 \<le> time \<Longrightarrow> validSeed (initialSeed time)"
  unfolding initialSeed_def by (rule validSeed_hash)


subsection \<open>Rotation, on every reachable snapshot\<close>

text \<open>
  Claim C7. Rotate is a no-op without a current block. Otherwise the next rotation index
  is \<open>(rotation + 1) mod\<close> the number of rotation states of the shape; the naively
  rotated cells are committed when they pass the occupancy and boundary checks; if not,
  the first wall-kick candidate of the table row of that rotation whose cells pass is
  applied (its x offset added, its y offset subtracted, in cells); with no such
  candidate the snapshot is returned unchanged. This is \<open>Rotate_spec\<close>, and Rotate
  returns it on every snapshot whose current block is well formed, so on every snapshot
  reachable from an initial snapshot with a valid seed.
\<close>

theorem Rotate_wall_kick:
  "(currentBlock s = None \<longrightarrow> Rotate_perform s = Inr s)
   \<and> (wellFormedCurrent s \<longrightarrow> Rotate_perform s = Inr (Rotate_spec s))
   \<and> (validSeed sd \<and> run (initialState sd) acts = Inr s \<longrightarrow>
          Rotate_perform s = Inr (Rotate_spec s))"
proof (intro conjI impI)
  assume "currentBlock s = None"
  then show "Rotate_perform s = Inr s" by (simp add: Rotate_perform_def)
next
  assume "wellFormedCurrent s"
  then show "Rotate_perform s = Inr (Rotate_spec s)" by (rule Rotate_perform_refines)
next
  assume "validSeed sd \<and> run (initialState sd) acts = Inr s"
  then have "wellFormedState s"
    using run_wellFormed[OF initialState_wellFormed] by blast
  show "Rotate_perform s = Inr (Rotate_spec s)"
  proof (cases "currentBlock s")
    case None
    then show ?thesis by (simp add: Rotate_perform_def Rotate_spec_def)
  next
    case (Some cb)
    with \<open>wellFormedState s\<close> have "wellFormedCurrent s"
      by (simp add: wellFormedCurrent_def wellFormedState_def)
    then show ?thesis by (rule Rotate_perform_refines)
  qed
qed

theorem Rotate_wall_kick_witness:
  "Rotate_perform uprightLeftWallState = Inr (Rotate_spec uprightLeftWallState)
   \<and> cellPositions (currentCells uprightLeftWallState) = [(0, 0), (0, 20), (0, 40), (0, 60)]
   \<and> cellPositions (currentCells (Rotate_spec uprightLeftWallState))
       = [(60, 40), (40, 40), (20, 40), (0, 40)]"
proof -
  have "case run gameStart ([Tick 0, Rotate] @ replicate 5 (Move Dir_x (- Block_WIDTH))) of
          Inl e \<Rightarrow> False
        | Inr s \<Rightarrow> wellFormedCurrent s
            \<and> cellPositions (currentCells s) = [(0, 0), (0, 20), (0, 40), (0, 60)]
            \<and> cellPositions (currentCells (Rotate_spec s)) = [(60, 40), (40, 40), (20, 40), (0, 40)]"
    by code_simp
  then have "wellFormedCurrent uprightLeftWallState
      \<and> cellPositions (currentCells uprightLeftWallState) = [(0, 0), (0, 20), (0, 40), (0, 60)]
      \<and> cellPositions (currentCells (Rotate_spec uprightLeftWallState))
          = [(60, 40), (40, 40), (20, 40), (0, 40)]"
    unfolding uprightLeftWallState_def by (rule sum_case_projr[THEN conjunct2])
  then show ?thesis
    using Rotate_wall_kick[of uprightLeftWallState] by simp
qed

text \<open>
  Claim C10. Rotate does not look at the collided flag. The T piece of \<open>settledState\<close>
  has come to rest on the floor and its cells are in \<open>blocks\<close>; Rotate fails the naive
  rotation against those very cells, finds the wall kick \<open>(1, 2)\<close>, and returns a
  snapshot whose current block, still collided, has other cells, with \<open>blocks\<close> as
  before.
\<close>

theorem Rotate_moves_collided_block:
  "\<exists>s s'. run gameStartT settledActions = Inr s
      \<and> collidedBlock s
      \<and> set (currentCells s) \<subseteq> set (blocks s)
      \<and> Rotate_perform s = Inr s'
      \<and> collidedBlock s'
      \<and> currentCells s' \<noteq> currentCells s
      \<and> blocks s' = blocks s
      \<and> \<not> passesChecks s (naivelyRotated s)
      \<and> currentCells s' = map (kickCell (1, 2)) (naivelyRotated s)
      \<and> cellPositions (currentCells s) = [(80, 340), (80, 360), (100, 360), (80, 380)]
      \<and> cellPositions (currentCells s') = [(120, 320), (100, 320), (100, 340), (80, 320)]"
proof -
  have "case run gameStartT settledActions of
          Inl e \<Rightarrow> False
        | Inr s \<Rightarrow>
            (case Rotate_perform s of
               Inl e \<Rightarrow> False
             | Inr s' \<Rightarrow>
                 collidedBlock s
                 \<and> set (currentCells s) \<subseteq> set (blocks s)
                 \<and> collidedBlock s'
                 \<and> currentCells s' \<noteq> currentCells s
                 \<and> blocks s' = blocks s
                 \<and> \<not> passesChecks s (naivelyRotated s)
                 \<and> currentCells s' = map (kickCell (1, 2)) (naivelyRotated s)
                 \<and> cellPositions (currentCells s) = [(80, 340), (80, 360), (100, 360), (80, 380)]
                 \<and> cellPositions (currentCells s') = [(120, 320), (100, 320), (100, 340), (80, 320)])"
    by code_simp
  then have reached: "run gameStartT settledActions = Inr settledState"
    and "case Rotate_perform settledState of
               Inl e \<Rightarrow> False
             | Inr s' \<Rightarrow>
                 collidedBlock settledState
                 \<and> set (currentCells settledState) \<subseteq> set (blocks settledState)
                 \<and> collidedBlock s'
                 \<and> currentCells s' \<noteq> currentCells settledState
                 \<and> blocks s' = blocks settledState
                 \<and> \<not> passesChecks settledState (naivelyRotated settledState)
                 \<and> currentCells s' = map (kickCell (1, 2)) (naivelyRotated settledState)
                 \<and> cellPositions (currentCells settledState)
                     = [(80, 340), (80, 360), (100, 360), (80, 380)]
                 \<and> cellPositions (currentCells s') = [(120, 320), (100, 320), (100, 340), (80, 320)]"
    unfolding settledState_def by (rule sum_case_projr[THEN conjunct1], rule sum_case_projr[THEN conjunct2])
  from this(2) have "Rotate_perform settledState = Inr (projr (Rotate_perform settledState))
      \<and> collidedBlock settledState
      \<and> set (currentCells settledState) \<subseteq> set (blocks settledState)
      \<and> collidedBlock (projr (Rotate_perform settledState))
      \<and> currentCells (projr (Rotate_perform settledState)) \<noteq> currentCells settledState
      \<and> blocks (projr (Rotate_perform settledState)) = blocks settledState
      \<and> \<not> passesChecks settledState (naivelyRotated settledState)
      \<and> currentCells (projr (Rotate_perform settledState))
          = map (kickCell (1, 2)) (naivelyRotated settledState)
      \<and> cellPositions (currentCells settledState)
          = [(80, 340), (80, 360), (100, 360), (80, 380)]
      \<and> cellPositions (currentCells (projr (Rotate_perform settledState)))
          = [(120, 320), (100, 320), (100, 340), (80, 320)]"
    by (rule sum_case_projr)
  with reached show ?thesis
    by (intro exI[of _ settledState] exI[of _ "projr (Rotate_perform settledState)"]) blast
qed

theorem Rotate_moves_collided_block_witness:
  "collidedBlock settledState
   \<and> Rotate_perform settledState \<noteq> Inr settledState
   \<and> cellPositions (currentCells (projr (Rotate_perform settledState)))
       = [(120, 320), (100, 320), (100, 340), (80, 320)]"
proof -
  from Rotate_moves_collided_block obtain s s'
    where r: "run gameStartT settledActions = Inr s" and c: "collidedBlock s"
      and p: "Rotate_perform s = Inr s'" and d: "currentCells s' \<noteq> currentCells s"
      and q: "cellPositions (currentCells s') = [(120, 320), (100, 320), (100, 340), (80, 320)]"
    by blast
  from r have s: "settledState = s" by (simp add: settledState_def)
  from d have "s' \<noteq> s" by auto
  with c p q show ?thesis by (simp add: s)
qed

subsection \<open>Line clears\<close>

lemma blockMakingFullLine_rows:
  "distinct (map cell_y (blockMakingFullLine s b))
   \<and> set (map cell_y (blockMakingFullLine s b)) = set (fullRows s b)"
proof -
  have d: "distinct (map cell_y ([] :: Cell list))" by simp
  note p = dedup_foldl[OF d, of "tetroBlockMakingLine s b"]
  have "cell_y ` set (tetroBlockMakingLine s b) = set (fullRows s b)"
    by (auto simp: tetroBlockMakingLine_def fullRows_def)
  with p show ?thesis
    unfolding blockMakingFullLine_def by (simp add: gr0_conv_Suc[symmetric])
qed

lemma length_blockMakingFullLine: "length (blockMakingFullLine s b) = length (fullRows s b)"
proof -
  have "length (blockMakingFullLine s b) = length (map cell_y (blockMakingFullLine s b))" by simp
  also have "\<dots> = card (set (map cell_y (blockMakingFullLine s b)))"
    using blockMakingFullLine_rows[of s b] distinct_card[of "map cell_y (blockMakingFullLine s b)"]
    by simp
  also have "\<dots> = card (set (fullRows s b))"
    using blockMakingFullLine_rows[of s b] by simp
  also have "\<dots> = length (fullRows s b)"
    by (simp add: fullRows_def length_remdups_card_conv)
  finally show ?thesis .
qed

lemma AllBlockInFullLine_rows:
  "AllBlockInFullLine s b = filter (\<lambda>c. cell_y c \<in> set (fullRows s b)) (blocks s)"
proof -
  have "AllBlockInFullLine s b
      = filter (\<lambda>c. cell_y c \<in> set (map cell_y (blockMakingFullLine s b))) (blocks s)"
    unfolding AllBlockInFullLine_def by (rule filter_cong) (auto simp: filter_empty_conv)
  then show ?thesis using blockMakingFullLine_rows[of s b] by simp
qed

lemma AllBlockInFullLine_length:
  "length (AllBlockInFullLine s b) = nat GRID_WIDTH * length (fullRows s b)"
proof -
  let ?ys = "map cell_y (blockMakingFullLine s b)"
  have eq: "AllBlockInFullLine s b = filter (\<lambda>c. cell_y c \<in> set ?ys) (blocks s)"
    unfolding AllBlockInFullLine_def by (rule filter_cong) (auto simp: filter_empty_conv)
  have full: "length (filter (\<lambda>c. cell_y c = r) (blocks s)) = nat GRID_WIDTH" if "r \<in> set ?ys" for r
  proof -
    from that blockMakingFullLine_rows[of s b] have "r \<in> set (fullRows s b)" by simp
    then show ?thesis by (auto simp: fullRows_def)
  qed
  have "length (filter (\<lambda>c. cell_y c \<in> set ?ys) (blocks s)) = nat GRID_WIDTH * length ?ys"
    using blockMakingFullLine_rows[of s b] full by (intro length_filter_rows) auto
  then show ?thesis by (simp add: eq length_blockMakingFullLine)
qed


lemma Tick_perform_frame:
  assumes "Tick_perform time s = Inr s'"
  shows "points s' = points (lineClearCheck s)
       \<and> lineClears s' = lineClears (lineClearCheck s)
       \<and> level s' = level (lineClearCheck s)
       \<and> changeInLevel s' = changeInLevel (lineClearCheck s)
       \<and> highscore s' = highscore (lineClearCheck s)
       \<and> clearedBlocks s' = clearedBlocks (lineClearCheck s)
       \<and> blocks s' = blocks (lineClearCheck s)"
proof -
  from assms obtain block nb g c e where
    "s' = (lineClearCheck s)\<lparr>currentBlock := Some block, nextBlock := Some nb,
            ghostBlock := Some g, blockCount := c, gameEnd := e\<rparr>"
    unfolding Tick_perform_def Let_def by (auto split: sum.splits)
  then show ?thesis by simp
qed

text \<open>
  Claim C5. When line-clear resolution clears \<open>k \<ge> 1\<close> full rows, points grow by
  \<open>100 * k\<close>, lineClears by \<open>k\<close>, level is the new lineClears divided by 10 (rounded
  down), changeInLevel says whether level changed, and highscore is the maximum of the
  old highscore and the new points; the cells of these rows are the cleared blocks. A
  Tick runs this resolution first and hands its scores on unchanged.
\<close>

theorem lineClear_score:
  assumes "k = length (clearedRows s)" and "1 \<le> k"
  shows "points (lineClearCheck s) = points s + 100 * int k
       \<and> lineClears (lineClearCheck s) = lineClears s + int k
       \<and> level (lineClearCheck s) = (lineClears s + int k) div 10
       \<and> changeInLevel (lineClearCheck s) = (level (lineClearCheck s) \<noteq> level s)
       \<and> highscore (lineClearCheck s) = max (highscore s) (points s + 100 * int k)
       \<and> clearedBlocks (lineClearCheck s)
           = filter (\<lambda>c. cell_y c \<in> set (clearedRows s)) (blocks s)
       \<and> length (clearedBlocks (lineClearCheck s)) = 10 * k
       \<and> (\<forall>time s'. Tick_perform time s = Inr s' \<longrightarrow>
              points s' = points (lineClearCheck s)
              \<and> lineClears s' = lineClears (lineClearCheck s)
              \<and> level s' = level (lineClearCheck s)
              \<and> changeInLevel s' = changeInLevel (lineClearCheck s)
              \<and> highscore s' = highscore (lineClearCheck s)
              \<and> clearedBlocks s' = clearedBlocks (lineClearCheck s)
              \<and> blocks s' = blocks (lineClearCheck s))"
proof -
  from assms obtain b where b: "currentBlock s = Some b" "collided b" "k = length (fullRows s b)"
    by (auto simp: clearedRows_def split: option.splits if_splits)
  then have rows: "clearedRows s = fullRows s b" by (simp add: clearedRows_def)
  have cleared: "AllBlockInFullLine s b = filter (\<lambda>c. cell_y c \<in> set (clearedRows s)) (blocks s)"
    unfolding rows by (rule AllBlockInFullLine_rows)
  have len: "length (AllBlockInFullLine s b) = 10 * k"
    using b by (simp add: AllBlockInFullLine_length GRID_WIDTH_def)
  from len \<open>1 \<le> k\<close> have nz: "length (AllBlockInFullLine s b) \<noteq> 0" by simp
  have q: "int (length (AllBlockInFullLine s b)) div GRID_WIDTH = int k"
    by (simp add: len GRID_WIDTH_def)
  have len2: "length (filter (\<lambda>c. cell_y c \<in> set (clearedRows s)) (blocks s)) = 10 * k"
    using len by (simp only: cleared)
  have "lineClearCheck s =
      s\<lparr>blocks := blocksAbove s b @ blocksBelow s b,
        lineClears := lineClears s + int k,
        points := points s + int k * 100,
        clearedBlocks := filter (\<lambda>c. cell_y c \<in> set (clearedRows s)) (blocks s),
        highscore := (if highscore s < points s + int k * 100 then points s + int k * 100
                      else highscore s),
        level := (lineClears s + int k) div 10,
        changeInLevel := (level s \<noteq> (lineClears s + int k) div 10)\<rparr>"
    using b(1,2) nz by (simp add: lineClearCheck_def q Let_def cleared[symmetric])
  then have "points (lineClearCheck s) = points s + 100 * int k
       \<and> lineClears (lineClearCheck s) = lineClears s + int k
       \<and> level (lineClearCheck s) = (lineClears s + int k) div 10
       \<and> changeInLevel (lineClearCheck s) = (level (lineClearCheck s) \<noteq> level s)
       \<and> highscore (lineClearCheck s) = max (highscore s) (points s + 100 * int k)
       \<and> clearedBlocks (lineClearCheck s)
           = filter (\<lambda>c. cell_y c \<in> set (clearedRows s)) (blocks s)
       \<and> length (clearedBlocks (lineClearCheck s)) = 10 * k"
    by (auto simp: max_def len2)
  with Tick_perform_frame show ?thesis by blast
qed


theorem lineClear_score_witness:
  "points (lineClearCheck fullRowState) = 1000
   \<and> lineClears (lineClearCheck fullRowState) = 10
   \<and> level (lineClearCheck fullRowState) = 1
   \<and> changeInLevel (lineClearCheck fullRowState)
   \<and> highscore (lineClearCheck fullRowState) = 1000
   \<and> length (clearedBlocks (lineClearCheck fullRowState)) = 10"
proof -
  have k: "1 = length (clearedRows fullRowState)" by code_simp
  have before: "points fullRowState = 900" "lineClears fullRowState = 9"
    "level fullRowState = 0" "highscore fullRowState = 900"
    by (simp_all add: fullRowState_def initialState_def)
  from lineClear_score[OF k]
  have "points (lineClearCheck fullRowState) = points fullRowState + 100 * int 1"
    and "lineClears (lineClearCheck fullRowState) = lineClears fullRowState + int 1"
    and "level (lineClearCheck fullRowState) = (lineClears fullRowState + int 1) div 10"
    and "changeInLevel (lineClearCheck fullRowState)
         = (level (lineClearCheck fullRowState) \<noteq> level fullRowState)"
    and "highscore (lineClearCheck fullRowState)
         = max (highscore fullRowState) (points fullRowState + 100 * int 1)"
    and "length (clearedBlocks (lineClearCheck fullRowState)) = 10 * 1"
    by blast+
  then show ?thesis by (simp add: before)
qed

subsection \<open>The fold of actions\<close>

lemma perform_sameAction: "sameAction a b \<Longrightarrow> perform a s = perform b s"
  by (cases a; cases b) (simp_all add: sameAction_def Tick_perform_def)

text \<open>
  Claim C3. The fold is deterministic: from a fixed snapshot, in particular the initial
  snapshot of a fixed seed, the same sequence of actions gives the same snapshots, one
  after the other, and the same final snapshot; blocks, spawned pieces and points are
  fields of these snapshots. The time stamp of a Tick is not read, so that the
  sequences need only agree up to it.
\<close>

theorem replay_deterministic:
  "list_all2 sameAction as1 as2 \<Longrightarrow>
     run s as1 = run s as2 \<and> snapshots s as1 = snapshots s as2"
proof (induction as1 as2 arbitrary: s rule: list_all2_induct)
  case Nil
  then show ?case by simp
next
  case (Cons a as1 b as2)
  from Cons.hyps(1) have "perform a s = perform b s" by (rule perform_sameAction)
  with Cons.IH show ?case by (simp split: sum.splits)
qed

theorem replay_deterministic_witness:
  "run gameStart [Tick 0, Drop, Tick 1] = run gameStart [Tick 7, Drop, Tick 8]
   \<and> snapshots gameStart [Tick 0, Drop, Tick 1] = snapshots gameStart [Tick 7, Drop, Tick 8]
   \<and> length (snapshots gameStart [Tick 0, Drop, Tick 1]) = 3"
proof -
  have "list_all2 sameAction [Tick 0, Drop, Tick 1] [Tick 7, Drop, Tick 8]"
    by (simp add: sameAction_def)
  moreover have "length (snapshots gameStart [Tick 0, Drop, Tick 1]) = 3"
    by code_simp
  ultimately show ?thesis
    using replay_deterministic[of "[Tick 0, Drop, Tick 1]" "[Tick 7, Drop, Tick 8]" gameStart]
    by simp
qed

text \<open>
  Claim C1. No two cells of \<open>blocks\<close> share a position, in every snapshot reachable from
  the initial one. The code does not keep this: \<^verbatim>\<open>collisionDetection\<close> does not look at
  the collided flag, so a Collision that follows a Drop (or another Collision) before
  the next Tick appends the cells of the settled block a second time.
\<close>

theorem Collision_after_Drop_duplicates:
  "(\<exists>s. run gameStart [Tick 0, Drop, Collision] = Inr s
      \<and> \<not> noOverlap s
      \<and> cellPositions (blocks s)
          = [(60, 380), (80, 380), (100, 380), (120, 380),
             (60, 380), (80, 380), (100, 380), (120, 380)])
   \<and> (\<exists>s. run gameStart ([Tick 0] @ replicate 18 (Move Dir_y Block_HEIGHT) @ [Collision, Collision])
           = Inr s
      \<and> \<not> noOverlap s)"
proof -
  have "case run gameStart [Tick 0, Drop, Collision] of
          Inl e \<Rightarrow> False
        | Inr s \<Rightarrow> \<not> noOverlap s
            \<and> cellPositions (blocks s)
                = [(60, 380), (80, 380), (100, 380), (120, 380),
                   (60, 380), (80, 380), (100, 380), (120, 380)]"
    by code_simp
  then have first: "\<exists>s. run gameStart [Tick 0, Drop, Collision] = Inr s
      \<and> \<not> noOverlap s
      \<and> cellPositions (blocks s)
          = [(60, 380), (80, 380), (100, 380), (120, 380),
             (60, 380), (80, 380), (100, 380), (120, 380)]"
    by (cases "run gameStart [Tick 0, Drop, Collision]") (simp_all only: sum.case, blast)
  have "case run gameStart ([Tick 0] @ replicate 18 (Move Dir_y Block_HEIGHT) @ [Collision, Collision]) of
          Inl e \<Rightarrow> False
        | Inr s \<Rightarrow> \<not> noOverlap s"
    by code_simp
  then have "\<exists>s. run gameStart ([Tick 0] @ replicate 18 (Move Dir_y Block_HEIGHT) @ [Collision, Collision])
           = Inr s
      \<and> \<not> noOverlap s"
    by (cases "run gameStart ([Tick 0] @ replicate 18 (Move Dir_y Block_HEIGHT) @ [Collision, Collision])")
       (simp_all only: sum.case, blast)
  with first show ?thesis by blast
qed

text \<open>
  Claim C2. Every transition is defined on every reachable snapshot, the initial one
  included. The code is not: \<^verbatim>\<open>collisionDetection\<close> reads \<^verbatim>\<open>s.currentBlock!.cells\<close>
  without the guard that Move, Rotate, Hold and Drop have, and throws on the initial
  snapshot, which has no current block.
\<close>

theorem Collision_throws_initially:
  "perform Collision (initialState sd) = Inl TypeError
   \<and> perform (Move d off) (initialState sd) = Inr (initialState sd)
   \<and> perform Rotate (initialState sd) = Inr (initialState sd)
   \<and> perform Hold (initialState sd) = Inr (initialState sd)
   \<and> perform Drop (initialState sd) = Inr (initialState sd)"
  by (simp add: Collision_perform_def collisionDetection_def Move_perform_def Rotate_perform_def
        Hold_perform_def Drop_perform_def initialState_def)

subsection \<open>Hold\<close>






end
